theory Spec2Isabelle
  imports Complex_Main "HOL-Library.Mapping"
begin

section \<open>A multiple linear regression engine (regression.go)\<close>

text \<open>
  The development follows \<^verbatim>\<open>regression.go\<close> function by function.

  \<^item> A Go \<^verbatim>\<open>float64\<close> is a value of a type \<open>'a\<close> whose arithmetic is \<^emph>\<open>not\<close> fixed:
    addition, subtraction, multiplication, division, \<^verbatim>\<open>math.Pow\<close>, the conversion
    \<^verbatim>\<open>float64(n)\<close> and the formatting of a number are the fields of a record \<open>runtime\<close> that every numerical function
    takes as its first argument. No law of arithmetic is assumed, so each theorem holds
    for IEEE-754 arithmetic as it holds for exact arithmetic. Only the zero value of the
    type (a field that was never written, \<^verbatim>\<open>return 0\<close>) is the constant \<open>0\<close> of the
    class \<open>zero\<close>, which has no law either.
  \<^item> The package \<^verbatim>\<open>go.matrix\<close> is imported, not part of the repository. A dense matrix
    that \<^verbatim>\<open>Run\<close> builds with \<^verbatim>\<open>Zeros\<close> and \<^verbatim>\<open>Set\<close> is the list of its rows. The numerical
    operations \<^verbatim>\<open>QR\<close> and \<^verbatim>\<open>Transpose().Times\<close> are fields of \<open>runtime\<close>; a matrix they
    return is seen through its \<^verbatim>\<open>Get\<close>, a function of the indices (\<^verbatim>\<open>Run\<close> reads it only
    at indices below the number of columns of the design matrix).
  \<^item> The interface \<^verbatim>\<open>featureCross\<close> is declared outside \<^verbatim>\<open>regression.go\<close>; a cross is
    any pair of functions \<open>Calculate\<close>, \<open>ExtendNames\<close>.
  \<^item> A Go map is a \<open>mapping\<close>; \<^verbatim>\<open>len(m) == 0\<close> is \<open>Mapping.is_empty\<close>.
  \<^item> A panic (an index out of range, a panic inside a cross) is the result \<open>None\<close>; the
    state a panicking call leaves behind is not described.
  \<^item> \<^verbatim>\<open>r.Data\<close> is a list of data points: the pointers in the slice are taken to be
    distinct and the backing arrays of the variable slices not to overlap.
\<close>

subsection \<open>Errors\<close>

datatype error =
    ErrNotEnoughData
  | ErrTooManyVars
  | ErrRegressionRun
  | ErrMatrix string

subsection \<open>What the Go runtime and the imported packages provide\<close>

record 'a runtime =
  fadd :: "'a \<Rightarrow> 'a \<Rightarrow> 'a"
  fsub :: "'a \<Rightarrow> 'a \<Rightarrow> 'a"
  fmul :: "'a \<Rightarrow> 'a \<Rightarrow> 'a"
  fdiv :: "'a \<Rightarrow> 'a \<Rightarrow> 'a"
  Pow :: "'a \<Rightarrow> 'a \<Rightarrow> 'a"
  float64 :: "int \<Rightarrow> 'a"
  Sprintf4f :: "'a \<Rightarrow> string"
  FormatFloat :: "'a \<Rightarrow> string"
  QR :: "'a list list \<Rightarrow> 'a list list \<times> (nat \<Rightarrow> nat \<Rightarrow> 'a)"
  TransposeTimes :: "'a list list \<Rightarrow> 'a list list \<Rightarrow> string + (nat \<Rightarrow> nat \<Rightarrow> 'a)"

subsection \<open>The data model\<close>

record 'a DataPoint =
  Observed :: "'a"
  Variables :: "'a list"
  Predicted :: "'a"
  Error :: "'a"

record Describe =
  Obs :: string
  Vars :: "(int, string) mapping"

record 'a featureCross =
  Calculate :: "'a list \<Rightarrow> 'a list option"
  ExtendNames :: "(int, string) mapping \<Rightarrow> int \<Rightarrow> (int, string) mapping \<times> int"

record 'a Regression =
  Names :: Describe
  Data :: "'a DataPoint list"
  CoeffMap :: "(int, 'a) mapping"
  R2 :: "'a"
  Varianceobserved :: "'a"
  VariancePredicted :: "'a"
  Initialised :: bool
  Formula :: string
  Crosses :: "'a featureCross list"
  HasRun :: bool
  LastTrained :: int
  Threshold :: int

text \<open>The zero value of the struct, \<^verbatim>\<open>new(Regression)\<close>.\<close>

definition newRegression :: "('a::zero) Regression" where
  "newRegression =
     \<lparr>Names = \<lparr>Obs = [], Vars = Mapping.empty\<rparr>, Data = [], CoeffMap = Mapping.empty,
      R2 = 0, Varianceobserved = 0, VariancePredicted = 0, Initialised = False,
      Formula = [], Crosses = [], HasRun = False, LastTrained = 0, Threshold = 0\<rparr>"

definition DataPointWrapper :: "'a \<Rightarrow> 'a list \<Rightarrow> ('a::zero) DataPoint" where
  "DataPointWrapper obs vars = \<lparr>Observed = obs, Variables = vars, Predicted = 0, Error = 0\<rparr>"

subsection \<open>Names\<close>

definition SetObserved :: "string \<Rightarrow> 'a Regression \<Rightarrow> 'a Regression" where
  "SetObserved name r = r\<lparr>Names := (Names r)\<lparr>Obs := name\<rparr>\<rparr>"

definition GetObserved :: "'a Regression \<Rightarrow> string" where
  "GetObserved r = Obs (Names r)"

definition SetVar :: "int \<Rightarrow> string \<Rightarrow> 'a Regression \<Rightarrow> 'a Regression" where
  "SetVar i name r = r\<lparr>Names := (Names r)\<lparr>Vars := Mapping.update i name (Vars (Names r))\<rparr>\<rparr>"

text \<open>\<^verbatim>\<open>strconv.Itoa\<close>, decimal digits with a sign.\<close>

function digits :: "nat \<Rightarrow> string" where
  "digits n = (if n < 10 then [''0123456789'' ! n]
               else digits (n div 10) @ [''0123456789'' ! (n mod 10)])"
  by pat_completeness auto
termination
  by (relation "measure (\<lambda>n. n)") auto

declare digits.simps [simp del]

definition Itoa :: "int \<Rightarrow> string" where
  "Itoa i = (if i < 0 then CHR ''-'' # digits (nat (- i)) else digits (nat i))"

definition GetVar :: "'a Regression \<Rightarrow> int \<Rightarrow> string" where
  "GetVar r i =
     (let x = (case Mapping.lookup (Vars (Names r)) i of None \<Rightarrow> [] | Some s \<Rightarrow> s)
      in if x = [] then ''X'' @ Itoa i else x)"

definition SetThreshold :: "int \<Rightarrow> 'a Regression \<Rightarrow> 'a Regression" where
  "SetThreshold thres r = r\<lparr>Threshold := thres\<rparr>"

subsection \<open>Training and feature crosses\<close>

definition AddCross :: "'a featureCross \<Rightarrow> 'a Regression \<Rightarrow> 'a Regression" where
  "AddCross cross r = r\<lparr>Crosses := Crosses r @ [cross]\<rparr>"

definition Train :: "'a DataPoint list \<Rightarrow> 'a Regression \<Rightarrow> 'a Regression" where
  "Train d r =
     (let r1 = r\<lparr>Data := Data r @ d\<rparr>
      in if length (Data r1) > 2 then r1\<lparr>Initialised := True\<rparr> else r1)"

text \<open>
  The loop \<^verbatim>\<open>for _, cross := range r.Crosses { vars = append(vars, cross.Calculate(vars)...) }\<close>,
  which \<^verbatim>\<open>applyCrosses\<close> runs on each point and \<^verbatim>\<open>Predict\<close> on its argument.
\<close>

primrec crossVars :: "'a featureCross list \<Rightarrow> 'a list \<Rightarrow> 'a list option" where
  "crossVars [] vars = Some vars"
| "crossVars (cross # rest) vars =
     (case Calculate cross vars of
        None \<Rightarrow> None
      | Some new \<Rightarrow> crossVars rest (vars @ new))"

primrec crossPoints :: "'a featureCross list \<Rightarrow> 'a DataPoint list \<Rightarrow> 'a DataPoint list option" where
  "crossPoints crosses [] = Some []"
| "crossPoints crosses (point # rest) =
     (case crossVars crosses (Variables point) of
        None \<Rightarrow> None
      | Some vars \<Rightarrow>
          (case crossPoints crosses rest of
             None \<Rightarrow> None
           | Some rest' \<Rightarrow> Some (point\<lparr>Variables := vars\<rparr> # rest')))"

primrec extendNames ::
  "'a featureCross list \<Rightarrow> (int, string) mapping \<Rightarrow> int \<Rightarrow> (int, string) mapping \<times> int" where
  "extendNames [] names cursor = (names, cursor)"
| "extendNames (cross # rest) names cursor =
     (case ExtendNames cross names cursor of
        (names', count) \<Rightarrow> extendNames rest names' (cursor + count))"

definition applyCrosses :: "'a Regression \<Rightarrow> 'a Regression option" where
  "applyCrosses r =
     (case Data r of
        [] \<Rightarrow> None
      | first # _ \<Rightarrow>
          (let unusedVariableIndexCursor = int (length (Variables first))
           in case crossPoints (Crosses r) (Data r) of
                None \<Rightarrow> None
              | Some points \<Rightarrow>
                  Some (r\<lparr>Data := points,
                          Names := (Names r)\<lparr>Vars :=
                            fst (extendNames (Crosses r) (Vars (Names r)) unusedVariableIndexCursor)\<rparr>\<rparr>)))"

subsection \<open>Prediction\<close>

definition Coeff :: "('a::zero) Regression \<Rightarrow> int \<Rightarrow> 'a" where
  "Coeff r i =
     (if Mapping.is_empty (CoeffMap r) then 0
      else (case Mapping.lookup (CoeffMap r) i of None \<Rightarrow> 0 | Some v \<Rightarrow> v))"

text \<open>
  The loop \<^verbatim>\<open>for j := 1; j < len(r.Data[0].Variables)+1; j++ { p += r.Coeff(j) * vars[j-1] }\<close>;
  \<open>k\<close> is \<^verbatim>\<open>len(r.Data[0].Variables)\<close>.
\<close>

function predictLoop ::
  "('a::zero) runtime \<Rightarrow> 'a Regression \<Rightarrow> 'a list \<Rightarrow> nat \<Rightarrow> nat \<Rightarrow> 'a \<Rightarrow> 'a option" where
  "predictLoop N r vars k j p =
     (if j < k + 1 then
        (if j - 1 < length vars
         then predictLoop N r vars k (j + 1) (fadd N p (fmul N (Coeff r (int j)) (vars ! (j - 1))))
         else None)
      else Some p)"
  by pat_completeness auto
termination
  by (relation "measure (\<lambda>(N, r, vars, k, j, p). k + 1 - j)") auto

declare predictLoop.simps [simp del]

definition Predict ::
  "('a::zero) runtime \<Rightarrow> 'a Regression \<Rightarrow> 'a list \<Rightarrow> ('a \<times> error option) option" where
  "Predict N r vars =
     (if \<not> Initialised r then Some (0, Some ErrNotEnoughData)
      else
        (case crossVars (Crosses r) vars of
           None \<Rightarrow> None
         | Some vars' \<Rightarrow>
             (case Data r of
                [] \<Rightarrow> None
              | first # _ \<Rightarrow>
                  (case predictLoop N r vars' (length (Variables first)) 1 (Coeff r 0) of
                     None \<Rightarrow> None
                   | Some p \<Rightarrow> Some (p, None)))))"

subsection \<open>The matrices that Run builds\<close>

text \<open>
  \<^verbatim>\<open>matrix.Zeros(rows, cols)\<close> and \<^verbatim>\<open>A.Set(i, j, v)\<close>, on a matrix given by its rows. \<^verbatim>\<open>Run\<close>
  calls \<^verbatim>\<open>Set\<close> only with \<open>i\<close> below the number of rows and \<open>j\<close> below the number of columns.
\<close>

definition Zeros :: "nat \<Rightarrow> nat \<Rightarrow> ('a::zero) list list" where
  "Zeros rows cols = replicate rows (replicate cols 0)"

definition Set_elem :: "'a list list \<Rightarrow> nat \<Rightarrow> nat \<Rightarrow> 'a \<Rightarrow> 'a list list" where
  "Set_elem A i j v = A[i := (A ! i)[j := v]]"

text \<open>
  The inner loop \<^verbatim>\<open>for j := 0; j < numOfvars+1; j++\<close> of the matrix construction: it
  panics when point \<open>i\<close> has fewer than \<open>numOfvars\<close> variables.
\<close>

function fillRow ::
  "'a runtime \<Rightarrow> 'a Regression \<Rightarrow> nat \<Rightarrow> nat \<Rightarrow> nat \<Rightarrow> 'a list list \<Rightarrow> 'a list list option" where
  "fillRow N r i numOfvars j variables =
     (if j < numOfvars + 1 then
        (if j = 0 then fillRow N r i numOfvars (j + 1) (Set_elem variables i 0 (float64 N 1))
         else if j - 1 < length (Variables (Data r ! i))
              then fillRow N r i numOfvars (j + 1)
                     (Set_elem variables i j (Variables (Data r ! i) ! (j - 1)))
              else None)
      else Some variables)"
  by pat_completeness auto
termination
  by (relation "measure (\<lambda>(N, r, i, numOfvars, j, variables). numOfvars + 1 - j)") auto

declare fillRow.simps [simp del]

text \<open>The outer loop \<^verbatim>\<open>for i := 0; i < observations; i++\<close>.\<close>

function fillMatrices ::
  "'a runtime \<Rightarrow> 'a Regression \<Rightarrow> nat \<Rightarrow> nat \<Rightarrow> nat \<Rightarrow> 'a list list \<Rightarrow> 'a list list
     \<Rightarrow> ('a list list \<times> 'a list list) option" where
  "fillMatrices N r observations numOfvars i observed variables =
     (if i < observations then
        (case fillRow N r i numOfvars 0 variables of
           None \<Rightarrow> None
         | Some variables' \<Rightarrow>
             fillMatrices N r observations numOfvars (i + 1)
               (Set_elem observed i 0 (Observed (Data r ! i))) variables')
      else Some (observed, variables))"
  by pat_completeness auto
termination
  by (relation "measure (\<lambda>(N, r, observations, numOfvars, i, observed, variables). observations - i)")
     auto

declare fillMatrices.simps [simp del]

subsection \<open>Back-substitution\<close>

text \<open>The inner loop \<^verbatim>\<open>for j := i + 1; j < n; j++ { c[i] -= c[j] * reg.Get(i, j) }\<close>.\<close>

function subtractLoop ::
  "'a runtime \<Rightarrow> (nat \<Rightarrow> nat \<Rightarrow> 'a) \<Rightarrow> nat \<Rightarrow> nat \<Rightarrow> nat \<Rightarrow> 'a list \<Rightarrow> 'a list" where
  "subtractLoop N reg n i j c =
     (if j < n
      then subtractLoop N reg n i (j + 1) (c[i := fsub N (c ! i) (fmul N (c ! j) (reg i j))])
      else c)"
  by pat_completeness auto
termination
  by (relation "measure (\<lambda>(N, reg, n, i, j, c). n - j)") auto

declare subtractLoop.simps [simp del]

text \<open>
  The outer loop \<^verbatim>\<open>for i := n - 1; i >= 0; i--\<close>: the fifth argument is \<open>i + 1\<close>, so the
  loop ends when it is \<open>0\<close>. The slice \<open>c\<close> has length \<open>n\<close>.
\<close>

fun backSubstitute ::
  "'a runtime \<Rightarrow> (nat \<Rightarrow> nat \<Rightarrow> 'a) \<Rightarrow> (nat \<Rightarrow> nat \<Rightarrow> 'a) \<Rightarrow> nat \<Rightarrow> nat \<Rightarrow> 'a list \<Rightarrow> 'a list" where
  "backSubstitute N reg qty n 0 c = c"
| "backSubstitute N reg qty n (Suc i) c =
     (let c1 = c[i := qty i 0];
          c2 = subtractLoop N reg n i (i + 1) c1;
          c3 = c2[i := fdiv N (c2 ! i) (reg i i)]
      in backSubstitute N reg qty n i c3)"

text \<open>The loop \<^verbatim>\<open>for i, val := range c\<close> that stores the coefficients and writes the formula.\<close>

fun storeCoeffs ::
  "'a runtime \<Rightarrow> bool \<Rightarrow> nat \<Rightarrow> 'a list \<Rightarrow> 'a Regression \<Rightarrow> 'a Regression" where
  "storeCoeffs N logOutput i [] r = r"
| "storeCoeffs N logOutput i (val # rest) r =
     storeCoeffs N logOutput (i + 1) rest
       (let r1 = r\<lparr>CoeffMap := Mapping.update (int i) val (CoeffMap r)\<rparr>
        in if logOutput then
             (if i = 0 then r1\<lparr>Formula := ''Predicted = '' @ Sprintf4f N val\<rparr>
              else r1\<lparr>Formula := Formula r1 @ '' + '' @ GetVar r1 (int i - 1) @ ''*''
                                    @ Sprintf4f N val\<rparr>)
           else r1)"

subsection \<open>The statistics pass\<close>

text \<open>
  \<^verbatim>\<open>calcPredicted\<close>: the string it returns is dropped by \<^verbatim>\<open>Run\<close> and is not modelled, so
  \<^verbatim>\<open>logOutput\<close> is not an argument.
\<close>

function calcPredictedLoop ::
  "('a::zero) runtime \<Rightarrow> 'a Regression \<Rightarrow> nat \<Rightarrow> 'a Regression option" where
  "calcPredictedLoop N r i =
     (if i < length (Data r) then
        (case Predict N r (Variables (Data r ! i)) of
           None \<Rightarrow> None
         | Some (p, err) \<Rightarrow>
             (let d = (Data r ! i)\<lparr>Predicted := p\<rparr>;
                  d' = d\<lparr>Error := fsub N (Predicted d) (Observed d)\<rparr>
              in calcPredictedLoop N (r\<lparr>Data := (Data r)[i := d']\<rparr>) (i + 1)))
      else Some r)"
  by pat_completeness auto
termination
  by (relation "measure (\<lambda>(N, r, i). length (Data r) - i)") auto

declare calcPredictedLoop.simps [simp del]

definition calcPredicted :: "('a::zero) runtime \<Rightarrow> 'a Regression \<Rightarrow> 'a Regression option" where
  "calcPredicted N r = calcPredictedLoop N r 0"

text \<open>The two loops of \<^verbatim>\<open>calcVariance\<close>.\<close>

function totalsLoop ::
  "'a runtime \<Rightarrow> 'a Regression \<Rightarrow> nat \<Rightarrow> 'a \<Rightarrow> 'a \<Rightarrow> 'a \<times> 'a" where
  "totalsLoop N r i obtotal prtotal =
     (if i < length (Data r)
      then totalsLoop N r (i + 1) (fadd N obtotal (Observed (Data r ! i)))
             (fadd N prtotal (Predicted (Data r ! i)))
      else (obtotal, prtotal))"
  by pat_completeness auto
termination
  by (relation "measure (\<lambda>(N, r, i, obtotal, prtotal). length (Data r) - i)") auto

declare totalsLoop.simps [simp del]

function deviationsLoop ::
  "'a runtime \<Rightarrow> 'a Regression \<Rightarrow> 'a \<Rightarrow> 'a \<Rightarrow> nat \<Rightarrow> 'a \<Rightarrow> 'a \<Rightarrow> 'a \<times> 'a" where
  "deviationsLoop N r obaverage praverage i obvar prvar =
     (if i < length (Data r)
      then deviationsLoop N r obaverage praverage (i + 1)
             (fadd N obvar (Pow N (fsub N (Observed (Data r ! i)) obaverage) (float64 N 2)))
             (fadd N prvar (Pow N (fsub N (Predicted (Data r ! i)) praverage) (float64 N 2)))
      else (obvar, prvar))"
  by pat_completeness auto
termination
  by (relation "measure (\<lambda>(N, r, obaverage, praverage, i, obvar, prvar). length (Data r) - i)") auto

declare deviationsLoop.simps [simp del]

definition calcVariance :: "('a::zero) runtime \<Rightarrow> 'a Regression \<Rightarrow> 'a Regression" where
  "calcVariance N r =
     (let observations = length (Data r);
          (obtotal, prtotal) = totalsLoop N r 0 0 0;
          obaverage = fdiv N obtotal (float64 N (int observations));
          praverage = fdiv N prtotal (float64 N (int observations));
          (obvar, prvar) = deviationsLoop N r obaverage praverage 0 0 0
      in r\<lparr>Varianceobserved := fdiv N obvar (float64 N (int observations)),
            VariancePredicted := fdiv N prvar (float64 N (int observations))\<rparr>)"

definition calcR2 :: "'a runtime \<Rightarrow> 'a Regression \<Rightarrow> 'a Regression" where
  "calcR2 N r = r\<lparr>R2 := fdiv N (VariancePredicted r) (Varianceobserved r)\<rparr>"

subsection \<open>Run\<close>

text \<open>
  The result \<open>Some (err, r')\<close> is the returned \<^verbatim>\<open>error\<close> (\<open>None\<close> for \<^verbatim>\<open>nil\<close>) and the model
  as the call leaves it.
\<close>

definition Run ::
  "('a::zero) runtime \<Rightarrow> bool \<Rightarrow> 'a Regression \<Rightarrow> (error option \<times> 'a Regression) option" where
  "Run N logOutput r =
     (if \<not> Initialised r then Some (Some ErrNotEnoughData, r)
      else if HasRun r then Some (Some ErrRegressionRun, r)
      else
        (case applyCrosses r of
           None \<Rightarrow> None
         | Some r1 \<Rightarrow>
             (let r2 = r1\<lparr>HasRun := True\<rparr>;
                  observations = length (Data r2);
                  numOfvars = length (Variables (Data r2 ! 0))
              in if observations < numOfvars + 1 then Some (Some ErrTooManyVars, r2)
                 else
                   (case fillMatrices N r2 observations numOfvars 0
                           (Zeros observations 1) (Zeros observations (numOfvars + 1)) of
                      None \<Rightarrow> None
                    | Some (observed, variables) \<Rightarrow>
                        (let n = numOfvars + 1;
                             (q, reg) = QR N variables
                         in case TransposeTimes N q observed of
                              Inl err \<Rightarrow> Some (Some (ErrMatrix err), r2)
                            | Inr qty \<Rightarrow>
                                (let c = backSubstitute N reg qty n n (replicate n 0);
                                     r3 = storeCoeffs N logOutput 0 c
                                            (r2\<lparr>CoeffMap := Mapping.empty\<rparr>)
                                 in case calcPredicted N r3 of
                                      None \<Rightarrow> None
                                    | Some r4 \<Rightarrow>
                                        Some (None,
                                          (calcR2 N (calcVariance N r4))\<lparr>HasRun := True\<rparr>)))))))"

subsection \<open>Data points from a table\<close>

text \<open>The loop \<^verbatim>\<open>for i, c := range r\<close> of \<^verbatim>\<open>perverseMakeDataPoints\<close>.\<close>

fun othersLoop :: "int \<Rightarrow> nat \<Rightarrow> 'a list \<Rightarrow> 'a list \<Rightarrow> 'a list" where
  "othersLoop obsIndex i [] others = others"
| "othersLoop obsIndex i (c # rest) others =
     (if int i = obsIndex then othersLoop obsIndex (i + 1) rest others
      else othersLoop obsIndex (i + 1) rest (others @ [c]))"

fun perverseLoop ::
  "int \<Rightarrow> 'a list list \<Rightarrow> ('a::zero) DataPoint list \<Rightarrow> 'a DataPoint list option" where
  "perverseLoop obsIndex [] retVal = Some retVal"
| "perverseLoop obsIndex (r # rest) retVal =
     (if 0 \<le> obsIndex \<and> obsIndex < int (length r)
      then perverseLoop obsIndex rest
             (retVal @ [DataPointWrapper (r ! nat obsIndex) (othersLoop obsIndex 0 r [])])
      else None)"

definition perverseMakeDataPoints ::
  "'a list list \<Rightarrow> int \<Rightarrow> ('a::zero) DataPoint list option" where
  "perverseMakeDataPoints a obsIndex = perverseLoop obsIndex a []"

text \<open>The loop of the branch \<^verbatim>\<open>obsIndex == 0\<close>: \<^verbatim>\<open>r[0]\<close> and \<^verbatim>\<open>r[1:]\<close> panic on an empty row.\<close>

fun firstLoop :: "'a list list \<Rightarrow> ('a::zero) DataPoint list \<Rightarrow> 'a DataPoint list option" where
  "firstLoop [] retVal = Some retVal"
| "firstLoop (r # rest) retVal =
     (if 0 < length r then firstLoop rest (retVal @ [DataPointWrapper (r ! 0) (drop 1 r)])
      else None)"

text \<open>The loop of the last branch: \<^verbatim>\<open>r[last]\<close> panics unless \<^verbatim>\<open>0 <= last < len(r)\<close>.\<close>

fun lastLoop :: "int \<Rightarrow> 'a list list \<Rightarrow> ('a::zero) DataPoint list \<Rightarrow> 'a DataPoint list option" where
  "lastLoop last' [] retVal = Some retVal"
| "lastLoop last' (r # rest) retVal =
     (if 0 \<le> last' \<and> last' < int (length r)
      then lastLoop last' rest (retVal @ [DataPointWrapper (r ! nat last') (take (nat last') r)])
      else None)"

text \<open>
  \<^verbatim>\<open>MakeDataPoints\<close>. The first test evaluates \<^verbatim>\<open>a[0]\<close> only when \<^verbatim>\<open>obsIndex != 0\<close>, and
  panics there on a table with no row.
\<close>

definition MakeDataPoints :: "'a list list \<Rightarrow> int \<Rightarrow> ('a::zero) DataPoint list option" where
  "MakeDataPoints a obsIndex =
     (if obsIndex \<noteq> 0 \<and> a = [] then None
      else if obsIndex \<noteq> 0 \<and> obsIndex \<noteq> int (length (a ! 0)) - 1
           then perverseMakeDataPoints a obsIndex
      else if obsIndex = 0 then firstLoop a []
      else lastLoop (int (length (a ! 0)) - 1) a [])"

subsection \<open>The power cross\<close>

text \<open>
  Modelled from the spec: the constructor \<^verbatim>\<open>PowCross\<close> is declared outside \<^verbatim>\<open>regression.go\<close>.
  The spec (4.1) gives it as: \<^emph>\<open>power-cross(sourceIndex, exponent): Calculate returns
  [variables[sourceIndex]^exponent]; name is the source variable's display name
  parenthesized with a caret-exponent suffix\<close>, and \<open>ExtendNames\<close> as assigning the names
  from the next free index on and returning their count. The display name of an unnamed
  variable is the synthesized \<^verbatim>\<open>X<index>\<close> of 4.5. It is used in examples only.
\<close>

definition PowCross :: "'a runtime \<Rightarrow> int \<Rightarrow> 'a \<Rightarrow> 'a featureCross" where
  "PowCross N i exponent =
     \<lparr>Calculate = (\<lambda>vars. if 0 \<le> i \<and> i < int (length vars)
                             then Some [Pow N (vars ! nat i) exponent] else None),
      ExtendNames = (\<lambda>names nextFreeIndex.
        (Mapping.update nextFreeIndex
           (''('' @ (case Mapping.lookup names i of
                       None \<Rightarrow> ''X'' @ Itoa i
                     | Some s \<Rightarrow> if s = [] then ''X'' @ Itoa i else s)
              @ '')^'' @ FormatFloat N exponent) names, 1))\<rparr>"

subsection \<open>Sequences of calls\<close>

text \<open>
  What a caller does with a model: the core operations, one after the other on the same
  model. A call that panics ends the sequence with \<open>None\<close>.
\<close>

datatype 'a call =
    CallTrain "'a DataPoint list"
  | CallAddCross "'a featureCross"
  | CallPredict "'a list"
  | CallRun bool

fun perform :: "('a::zero) runtime \<Rightarrow> 'a call \<Rightarrow> 'a Regression \<Rightarrow> 'a Regression option" where
  "perform N (CallTrain d) r = Some (Train d r)"
| "perform N (CallAddCross cross) r = Some (AddCross cross r)"
| "perform N (CallPredict vars) r = (case Predict N r vars of None \<Rightarrow> None | Some res \<Rightarrow> Some r)"
| "perform N (CallRun logOutput) r =
     (case Run N logOutput r of None \<Rightarrow> None | Some (err, r') \<Rightarrow> Some r')"

fun performAll :: "('a::zero) runtime \<Rightarrow> 'a call list \<Rightarrow> 'a Regression \<Rightarrow> 'a Regression option" where
  "performAll N [] r = Some r"
| "performAll N (c # cs) r =
     (case perform N c r of None \<Rightarrow> None | Some r' \<Rightarrow> performAll N cs r')"

text \<open>\<^verbatim>\<open>Run\<close> called twice in a row: the two returned errors and the final model.\<close>

definition runTwice ::
  "('a::zero) runtime \<Rightarrow> bool \<Rightarrow> 'a Regression
     \<Rightarrow> (error option \<times> error option \<times> 'a Regression) option" where
  "runTwice N logOutput r =
     (case Run N logOutput r of
        None \<Rightarrow> None
      | Some (err1, r1) \<Rightarrow>
          (case Run N logOutput r1 of
             None \<Rightarrow> None
           | Some (err2, r2) \<Rightarrow> Some (err1, err2, r2)))"

subsection \<open>An instance of the parameters: exact rational arithmetic\<close>

text \<open>
  The concrete evaluations below run the model on rational numbers with exact
  arithmetic. \<open>scaledQR\<close> is the QR factorisation of a matrix whose columns are
  pairwise orthogonal and of norm 2 (\<open>Q = A / 2\<close>, \<open>R = 2 I\<close>), as the design matrix of
  \<open>fourPoints\<close> is; \<open>transposeTimes\<close> is the product of the transpose of its first argument
  with the second, refused when the row counts differ.
\<close>

definition scaledQR :: "rat list list \<Rightarrow> rat list list \<times> (nat \<Rightarrow> nat \<Rightarrow> rat)" where
  "scaledQR A = (map (map (\<lambda>x. x / 2)) A, (\<lambda>i j. if i = j then 2 else 0))"

definition transposeTimes ::
  "rat list list \<Rightarrow> rat list list \<Rightarrow> string + (nat \<Rightarrow> nat \<Rightarrow> rat)" where
  "transposeTimes q b =
     (if length q \<noteq> length b then Inl ''dimension mismatch''
      else Inr (\<lambda>i j. sum_list (map (\<lambda>k. (q ! k ! i) * (b ! k ! j)) [0..<length q])))"

definition exact :: "rat runtime" where
  "exact =
     \<lparr>fadd = (+), fsub = (-), fmul = (*), fdiv = (/), Pow = (\<lambda>x y. x ^ nat \<lfloor>y\<rfloor>),
      float64 = of_int, Sprintf4f = (\<lambda>x. Itoa \<lfloor>x\<rfloor>), FormatFloat = (\<lambda>x. Itoa \<lfloor>x\<rfloor>),
      QR = scaledQR, TransposeTimes = transposeTimes\<rparr>"

text \<open>Four observations of \<open>y = 3 + 2 x\<close>.\<close>

definition fourPoints :: "rat DataPoint list" where
  "fourPoints =
     [DataPointWrapper 5 [1], DataPointWrapper 1 [- 1],
      DataPointWrapper 5 [1], DataPointWrapper 1 [- 1]]"

definition fourModel :: "rat Regression" where
  "fourModel = Train fourPoints newRegression"

text \<open>The model that \<^verbatim>\<open>Run\<close> leaves: the fit \<open>3 + 2 x\<close> is exact, so \<open>R2 = 1\<close>.\<close>

definition fittedModel :: "rat Regression" where
  "fittedModel =
     \<lparr>Names = \<lparr>Obs = [], Vars = Mapping.empty\<rparr>,
      Data = [\<lparr>Observed = 5, Variables = [1], Predicted = 5, Error = 0\<rparr>,
              \<lparr>Observed = 1, Variables = [- 1], Predicted = 1, Error = 0\<rparr>,
              \<lparr>Observed = 5, Variables = [1], Predicted = 5, Error = 0\<rparr>,
              \<lparr>Observed = 1, Variables = [- 1], Predicted = 1, Error = 0\<rparr>],
      CoeffMap = Mapping.update 1 2 (Mapping.update 0 3 Mapping.empty),
      R2 = 1, Varianceobserved = 4, VariancePredicted = 4, Initialised = True,
      Formula = [], Crosses = [], HasRun = True, LastTrained = 0, Threshold = 0\<rparr>"

text \<open>The same model with three power crosses on its one variable: four variables in all.\<close>

definition crossedModel :: "rat Regression" where
  "crossedModel =
     AddCross (PowCross exact 0 4) (AddCross (PowCross exact 0 3)
       (AddCross (PowCross exact 0 2) fourModel))"

subsection \<open>The table conversion as the specification words it\<close>

text \<open>
  Following the specification (section 6), not the code: one data point per row, the
  observed value is the entry of the row at the index, the variables are all the other
  entries of the row in their original order.
\<close>

definition tableDataPoints :: "'a list list \<Rightarrow> nat \<Rightarrow> ('a::zero) DataPoint list" where
  "tableDataPoints a index =
     map (\<lambda>row. \<lparr>Observed = row ! index,
                  Variables = map (\<lambda>i. row ! i) (filter (\<lambda>i. i \<noteq> index) [0..<length row]),
                  Predicted = 0, Error = 0\<rparr>) a"

text \<open>The table of the repository's test of \<^verbatim>\<open>MakeDataPoints\<close>.\<close>

definition testTable :: "rat list list" where
  "testTable = [[1, 2, 3, 4], [2, 2, 3, 4], [3, 2, 3, 4]]"

subsection \<open>The design matrix, row by row\<close>

text \<open>
  The row of a data point in a design matrix with \<open>k\<close> variable columns: the constant
  \<open>1\<close>, then the first \<open>k\<close> variables of the point (all of them, when the point has
  exactly \<open>k\<close>).
\<close>

definition designRow :: "'a runtime \<Rightarrow> nat \<Rightarrow> 'a DataPoint \<Rightarrow> 'a list" where
  "designRow N k d = float64 N 1 # take k (Variables d)"

subsection \<open>Mean and population variance as the specification words them\<close>

text \<open>
  Following the specification (4.2, step 8), not the code: the mean of a list of values,
  and the sum of the squared deviations from the mean divided by the number \<open>N\<close> of
  values (not \<open>N - 1\<close>). Sums start at \<open>0\<close> and add from the left; the square is
  \<^verbatim>\<open>math.Pow(x, 2)\<close>.
\<close>

definition meanOf :: "('a::zero) runtime \<Rightarrow> 'a list \<Rightarrow> 'a" where
  "meanOf N xs = fdiv N (foldl (fadd N) 0 xs) (float64 N (int (length xs)))"

definition populationVariance :: "('a::zero) runtime \<Rightarrow> 'a list \<Rightarrow> 'a" where
  "populationVariance N xs =
     fdiv N (foldl (\<lambda>s x. fadd N s (Pow N (fsub N x (meanOf N xs)) (float64 N 2))) 0 xs)
            (float64 N (int (length xs)))"

text \<open>Four observations of the constant \<open>3\<close>: the observed variance is \<open>0\<close>.\<close>

definition flatModel :: "rat Regression" where
  "flatModel =
     Train [DataPointWrapper 3 [1], DataPointWrapper 3 [- 1],
            DataPointWrapper 3 [1], DataPointWrapper 3 [- 1]] newRegression"

text \<open>Three observations with three variables each.\<close>

definition squareModel :: "rat Regression" where
  "squareModel =
     Train [DataPointWrapper 1 [1, 2, 3], DataPointWrapper 2 [2, 3, 4],
            DataPointWrapper 3 [3, 4, 5]] newRegression"

section \<open>Properties\<close>

subsection \<open>The outcomes of Run\<close>

lemma Run_cases:
  assumes "Run N lg r = Some (e, r')"
  obtains
    (uninit) "\<not> Initialised r" "e = Some ErrNotEnoughData" "r' = r"
  | (already) "Initialised r" "HasRun r" "e = Some ErrRegressionRun" "r' = r"
  | (toomany) r1 where "Initialised r" "\<not> HasRun r" "applyCrosses r = Some r1"
      "length (Data r1) < length (Variables (Data r1 ! 0)) + 1"
      "e = Some ErrTooManyVars" "r' = r1\<lparr>HasRun := True\<rparr>"
  | (matrix) r1 observed variables q reg err where "Initialised r" "\<not> HasRun r"
      "applyCrosses r = Some r1"
      "\<not> length (Data r1) < length (Variables (Data r1 ! 0)) + 1"
      "fillMatrices N (r1\<lparr>HasRun := True\<rparr>) (length (Data r1)) (length (Variables (Data r1 ! 0))) 0
         (Zeros (length (Data r1)) 1) (Zeros (length (Data r1)) (length (Variables (Data r1 ! 0)) + 1))
       = Some (observed, variables)"
      "QR N variables = (q, reg)" "TransposeTimes N q observed = Inl err"
      "e = Some (ErrMatrix err)" "r' = r1\<lparr>HasRun := True\<rparr>"
  | (fitted) r1 observed variables q reg qty r4 where "Initialised r" "\<not> HasRun r"
      "applyCrosses r = Some r1"
      "\<not> length (Data r1) < length (Variables (Data r1 ! 0)) + 1"
      "fillMatrices N (r1\<lparr>HasRun := True\<rparr>) (length (Data r1)) (length (Variables (Data r1 ! 0))) 0
         (Zeros (length (Data r1)) 1) (Zeros (length (Data r1)) (length (Variables (Data r1 ! 0)) + 1))
       = Some (observed, variables)"
      "QR N variables = (q, reg)" "TransposeTimes N q observed = Inr qty"
      "calcPredicted N
         (storeCoeffs N lg 0
            (backSubstitute N reg qty (length (Variables (Data r1 ! 0)) + 1)
               (length (Variables (Data r1 ! 0)) + 1)
               (replicate (length (Variables (Data r1 ! 0)) + 1) 0))
            (r1\<lparr>HasRun := True, CoeffMap := Mapping.empty\<rparr>)) = Some r4"
      "e = None" "r' = (calcR2 N (calcVariance N r4))\<lparr>HasRun := True\<rparr>"
  using assms unfolding Run_def Let_def
  by (auto split: if_splits option.splits prod.splits sum.splits)

lemma Run_uninitialised: "\<not> Initialised r \<Longrightarrow> Run N lg r = Some (Some ErrNotEnoughData, r)"
  by (simp add: Run_def)

lemma Run_already: "Initialised r \<Longrightarrow> HasRun r \<Longrightarrow> Run N lg r = Some (Some ErrRegressionRun, r)"
  by (simp add: Run_def)

lemma crossPoints_length: "crossPoints cs ds = Some ds' \<Longrightarrow> length ds' = length ds"
  by (induction ds arbitrary: ds') (auto split: option.splits)

lemma crossPoints_nth:
  "crossPoints cs ds = Some ds' \<Longrightarrow> i < length ds \<Longrightarrow>
   crossVars cs (Variables (ds ! i)) = Some (Variables (ds' ! i)) \<and>
   ds' ! i = (ds ! i)\<lparr>Variables := Variables (ds' ! i)\<rparr>"
proof (induction ds arbitrary: ds' i)
  case Nil
  then show ?case by simp
next
  case (Cons d ds)
  then show ?case
    by (cases i) (auto split: option.splits)
qed

lemma applyCrosses_Some:
  assumes "applyCrosses r = Some r1"
  shows "Data r \<noteq> []" and "crossPoints (Crosses r) (Data r) = Some (Data r1)"
    and "length (Data r1) = length (Data r)"
    and "Initialised r1 = Initialised r" and "HasRun r1 = HasRun r"
    and "Crosses r1 = Crosses r" and "CoeffMap r1 = CoeffMap r"
  using assms
  by (auto simp: applyCrosses_def Let_def crossPoints_length split: list.splits option.splits)

lemma storeCoeffs_fields:
  "Data (storeCoeffs N lg i c r) = Data r \<and> Initialised (storeCoeffs N lg i c r) = Initialised r
   \<and> HasRun (storeCoeffs N lg i c r) = HasRun r \<and> Crosses (storeCoeffs N lg i c r) = Crosses r"
  by (induction c arbitrary: i r) (auto simp: Let_def)

lemma calcPredictedLoop_fields:
  "calcPredictedLoop N r i = Some r' \<Longrightarrow>
   length (Data r') = length (Data r) \<and> Initialised r' = Initialised r \<and> HasRun r' = HasRun r
   \<and> Crosses r' = Crosses r \<and> CoeffMap r' = CoeffMap r"
proof (induction N r i rule: calcPredictedLoop.induct)
  case (1 N r i)
  show ?case
  proof (cases "i < length (Data r)")
    case True
    with "1.prems" obtain p err where
      P: "Predict N r (Variables (Data r ! i)) = Some (p, err)"
      by (subst (asm) calcPredictedLoop.simps) (auto split: option.splits)
    define d where "d = (Data r ! i)\<lparr>Predicted := p\<rparr>"
    define d' where "d' = d\<lparr>Error := fsub N (Predicted d) (Observed d)\<rparr>"
    from "1.prems" True P
    have step: "calcPredictedLoop N (r\<lparr>Data := (Data r)[i := d']\<rparr>) (i + 1) = Some r'"
      by (subst (asm) calcPredictedLoop.simps) (simp add: d_def d'_def Let_def)
    from "1.IH"[OF True P refl d_def d'_def step] show ?thesis by simp
  next
    case False
    with "1.prems" show ?thesis
      by (subst (asm) calcPredictedLoop.simps) simp
  qed
qed

lemma calcVariance_fields:
  "Data (calcVariance N r) = Data r \<and> Initialised (calcVariance N r) = Initialised r
   \<and> HasRun (calcVariance N r) = HasRun r \<and> Crosses (calcVariance N r) = Crosses r
   \<and> CoeffMap (calcVariance N r) = CoeffMap r"
  by (simp add: calcVariance_def Let_def split: prod.splits)

lemma calcR2_fields:
  "Data (calcR2 N r) = Data r \<and> Initialised (calcR2 N r) = Initialised r
   \<and> HasRun (calcR2 N r) = HasRun r \<and> Crosses (calcR2 N r) = Crosses r
   \<and> CoeffMap (calcR2 N r) = CoeffMap r"
  by (simp add: calcR2_def)

lemma calcPredicted_fields:
  "calcPredicted N r = Some r' \<Longrightarrow>
   length (Data r') = length (Data r) \<and> Initialised r' = Initialised r \<and> HasRun r' = HasRun r
   \<and> Crosses r' = Crosses r \<and> CoeffMap r' = CoeffMap r"
  unfolding calcPredicted_def by (rule calcPredictedLoop_fields)

lemma Run_preserves:
  assumes "Run N lg r = Some (e, r')"
  shows "Initialised r' = Initialised r \<and> length (Data r') = length (Data r)
    \<and> Crosses r' = Crosses r \<and> (HasRun r \<longrightarrow> HasRun r')"
  using assms
proof (cases rule: Run_cases)
  case uninit
  then show ?thesis by simp
next
  case already
  then show ?thesis by simp
next
  case (toomany r1)
  then show ?thesis using applyCrosses_Some[OF toomany(3)] by simp
next
  case (matrix r1 observed variables q reg err)
  then show ?thesis using applyCrosses_Some[OF matrix(3)] by simp
next
  case (fitted r1 observed variables q reg qty r4)
  from calcPredicted_fields[OF fitted(8)] applyCrosses_Some[OF fitted(3)]
  have "length (Data r4) = length (Data r)" "Initialised r4 = Initialised r" "Crosses r4 = Crosses r"
    by (simp_all add: storeCoeffs_fields)
  then show ?thesis using fitted(1,2,10)
    by (simp add: calcR2_fields calcVariance_fields)
qed

subsection \<open>What a sequence of calls preserves\<close>

lemma perform_preserves:
  assumes "perform N c r = Some r'"
  shows "(Initialised r \<longrightarrow> Initialised r') \<and> (HasRun r \<longrightarrow> HasRun r')"
proof (cases c)
  case (CallTrain d)
  with assms show ?thesis by (auto simp: Train_def Let_def)
next
  case (CallAddCross cross)
  with assms show ?thesis by (auto simp: AddCross_def)
next
  case (CallPredict vars)
  with assms show ?thesis by (auto split: option.splits)
next
  case (CallRun lg)
  with assms obtain e where "Run N lg r = Some (e, r')"
    by (auto split: option.splits)
  from Run_preserves[OF this] show ?thesis by simp
qed

lemma performAll_preserves:
  "performAll N cs r = Some r' \<Longrightarrow>
   (Initialised r \<longrightarrow> Initialised r') \<and> (HasRun r \<longrightarrow> HasRun r')"
proof (induction cs arbitrary: r)
  case Nil
  then show ?case by simp
next
  case (Cons c cs)
  then obtain r1 where s: "perform N c r = Some r1" and t: "performAll N cs r1 = Some r'"
    by (auto split: option.splits)
  from perform_preserves[OF s] Cons.IH[OF t] show ?case by blast
qed

lemma perform_initialised_iff:
  assumes "perform N c r = Some r'" and "Initialised r \<longleftrightarrow> 3 \<le> length (Data r)"
  shows "Initialised r' \<longleftrightarrow> 3 \<le> length (Data r')"
proof (cases c)
  case (CallTrain d)
  with assms show ?thesis by (auto simp: Train_def Let_def split: if_splits)
next
  case (CallAddCross cross)
  with assms show ?thesis by (auto simp: AddCross_def)
next
  case (CallPredict vars)
  with assms show ?thesis by (auto split: option.splits)
next
  case (CallRun lg)
  with assms obtain e where "Run N lg r = Some (e, r')"
    by (auto split: option.splits)
  from Run_preserves[OF this] assms(2) show ?thesis by simp
qed

lemma performAll_initialised_iff:
  "performAll N cs r = Some r' \<Longrightarrow> (Initialised r \<longleftrightarrow> 3 \<le> length (Data r)) \<Longrightarrow>
   (Initialised r' \<longleftrightarrow> 3 \<le> length (Data r'))"
proof (induction cs arbitrary: r)
  case Nil
  then show ?case by simp
next
  case (Cons c cs)
  then obtain r1 where s: "perform N c r = Some r1" and t: "performAll N cs r1 = Some r'"
    by (auto split: option.splits)
  from Cons.IH[OF t perform_initialised_iff[OF s Cons.prems(2)]] show ?case .
qed

subsection \<open>Evaluation of the model on concrete inputs\<close>

text \<open>
  The loop equations are not simplification rules; the concrete evaluations unfold them
  together with the definitions.
\<close>

lemmas loop_simps = predictLoop.simps fillRow.simps fillMatrices.simps subtractLoop.simps
  calcPredictedLoop.simps totalsLoop.simps deviationsLoop.simps
lemmas model_defs = Run_def Train_def AddCross_def newRegression_def DataPointWrapper_def
  applyCrosses_def Predict_def Coeff_def Zeros_def Set_elem_def calcPredicted_def
  calcVariance_def calcR2_def PowCross_def
lemmas exact_defs = exact_def scaledQR_def transposeTimes_def fourPoints_def fourModel_def
  crossedModel_def

lemma Run_fourModel: "Run exact False fourModel = Some (None, fittedModel)"
  by (simp add: model_defs exact_defs loop_simps Let_def fittedModel_def)

subsection \<open>Training and the first guard of Run\<close>

text \<open>
  Claim C2. \<^verbatim>\<open>Run\<close> on a model that is not initialised returns \<open>ErrNotEnoughData\<close> and
  leaves the model as it was. \<^verbatim>\<open>Train\<close> is total, appends the given points whatever
  \<open>LastTrained\<close> and \<open>Threshold\<close> hold (it reads neither and writes neither), and the
  model it returns is initialised exactly when the model was initialised already or now
  holds three points or more. Hence, for every model built from \<^verbatim>\<open>new(Regression)\<close> by any
  sequence of calls of \<^verbatim>\<open>Train\<close>, \<^verbatim>\<open>AddCross\<close>, \<^verbatim>\<open>Predict\<close> and \<^verbatim>\<open>Run\<close>, the model is
  initialised if and only if it holds at least three points.
\<close>

theorem C2_not_enough_data_and_Train:
  "(\<not> Initialised r \<longrightarrow> Run N lg r = Some (Some ErrNotEnoughData, r))
   \<and> Data (Train d r) = Data r @ d
   \<and> Train d (r\<lparr>LastTrained := l, Threshold := t\<rparr>) = (Train d r)\<lparr>LastTrained := l, Threshold := t\<rparr>
   \<and> (Initialised (Train d r) \<longleftrightarrow> Initialised r \<or> 3 \<le> length (Data r) + length d)
   \<and> (performAll N calls newRegression = Some r' \<longrightarrow> (Initialised r' \<longleftrightarrow> 3 \<le> length (Data r')))"
proof -
  have "performAll N calls newRegression = Some r' \<Longrightarrow> (Initialised r' \<longleftrightarrow> 3 \<le> length (Data r'))"
    by (erule performAll_initialised_iff) (simp add: newRegression_def)
  then show ?thesis
    by (auto simp: Run_uninitialised Train_def Let_def)
qed

theorem C2_witness:
  "Run exact False (newRegression :: rat Regression) = Some (Some ErrNotEnoughData, newRegression)
   \<and> Data (Train fourPoints (newRegression :: rat Regression)) = fourPoints
   \<and> Threshold (Train fourPoints ((newRegression :: rat Regression)\<lparr>LastTrained := 7, Threshold := 1000\<rparr>)) = 1000
   \<and> Initialised (Train fourPoints (newRegression :: rat Regression))
   \<and> \<not> Initialised (Train (take 2 fourPoints) (newRegression :: rat Regression))
   \<and> (\<exists>r'. performAll exact [CallTrain (take 2 fourPoints), CallRun False, CallTrain (drop 2 fourPoints),
                   CallRun False, CallPredict [3]] newRegression = Some r'
          \<and> Initialised r' \<and> length (Data r') = 4)"
proof -
  let ?calls = "[CallTrain (take 2 fourPoints), CallRun False, CallTrain (drop 2 fourPoints),
                 CallRun False, CallPredict [3]]"
  obtain r' where r': "performAll exact ?calls newRegression = Some r'" and l: "length (Data r') = 4"
    by (simp add: model_defs exact_defs loop_simps Let_def)
  have u: "\<not> Initialised (newRegression :: rat Regression)"
    by (simp add: newRegression_def)
  from C2_not_enough_data_and_Train[where r=newRegression and N=exact and lg=False and d=fourPoints and l=7 and t=1000
      and calls="?calls" and r'=r'] u r' l
  have a: "Run exact False (newRegression :: rat Regression) = Some (Some ErrNotEnoughData, newRegression)"
    and b: "Data (Train fourPoints (newRegression :: rat Regression)) = Data (newRegression :: rat Regression) @ fourPoints"
    and c: "Train fourPoints ((newRegression :: rat Regression)\<lparr>LastTrained := 7, Threshold := 1000\<rparr>)
            = (Train fourPoints newRegression)\<lparr>LastTrained := 7, Threshold := 1000\<rparr>"
    and d: "Initialised (Train fourPoints (newRegression :: rat Regression))
            \<longleftrightarrow> Initialised (newRegression :: rat Regression) \<or> 3 \<le> length (Data (newRegression :: rat Regression)) + length fourPoints"
    and e: "Initialised r'"
    by simp_all
  have f: "\<not> Initialised (Train (take 2 fourPoints) (newRegression :: rat Regression))"
    using C2_not_enough_data_and_Train[where r=newRegression and N=exact and lg=False and d="take 2 fourPoints" and l=0 and t=0
      and calls="[]" and r'=newRegression]
    by (simp add: newRegression_def fourPoints_def)
  from a b c d e f r' l show ?thesis
    by (simp add: newRegression_def fourPoints_def)
qed

lemma Run_after_calls:
  assumes "Initialised r" and "HasRun r" and "performAll N calls r = Some r2"
  shows "HasRun r2 \<and> Run N lg r2 = Some (Some ErrRegressionRun, r2)"
proof -
  from performAll_preserves[OF assms(3)] assms(1,2)
  have "Initialised r2" and "HasRun r2" by simp_all
  then show ?thesis by (simp add: Run_already)
qed

lemma Run_sets_HasRun:
  assumes "Initialised r" and "Run N lg r = Some (e, r1)"
  shows "Initialised r1 \<and> HasRun r1"
  using assms(2)
proof (cases rule: Run_cases)
  case uninit
  with assms(1) show ?thesis by simp
next
  case already
  then show ?thesis by simp
next
  case (toomany r1')
  then show ?thesis using applyCrosses_Some[OF toomany(3)] by simp
next
  case (matrix r1' observed variables q reg err)
  then show ?thesis using applyCrosses_Some[OF matrix(3)] by simp
next
  case (fitted r1' observed variables q reg qty r4)
  from calcPredicted_fields[OF fitted(8)] applyCrosses_Some[OF fitted(3)] fitted(1)
  have "Initialised r4" by (simp add: storeCoeffs_fields)
  then show ?thesis using fitted(10)
    by (simp add: calcR2_fields calcVariance_fields)
qed

subsection \<open>Running twice\<close>

text \<open>
  Claim C1, as the code has it. The claim speaks of every model; on a model that is not
  initialised the first guard of \<^verbatim>\<open>Run\<close> answers before the second one, so both calls
  return \<open>ErrNotEnoughData\<close> (the evaluation after the theorem). For every
  \<^emph>\<open>initialised\<close> model on which a first call of \<^verbatim>\<open>Run\<close> returns, with whatever result: a
  second call returns \<open>ErrRegressionRun\<close> and leaves the model untouched, so nothing of
  the fitting pipeline is performed; and after any further calls of \<^verbatim>\<open>Train\<close>,
  \<^verbatim>\<open>AddCross\<close>, \<^verbatim>\<open>Predict\<close> and \<^verbatim>\<open>Run\<close> the flag \<open>HasRun\<close> still holds and \<^verbatim>\<open>Run\<close> still
  returns \<open>ErrRegressionRun\<close>. No core operation clears \<open>HasRun\<close>.
\<close>

theorem C1_second_Run_already_run:
  assumes "Initialised r" and "Run N lg r = Some (e1, r1)"
  shows "Run N lg2 r1 = Some (Some ErrRegressionRun, r1)
    \<and> runTwice N lg r = Some (e1, Some ErrRegressionRun, r1)
    \<and> (\<forall>calls r2 lg3. performAll N calls r1 = Some r2 \<longrightarrow>
          HasRun r2 \<and> Run N lg3 r2 = Some (Some ErrRegressionRun, r2))
    \<and> (\<forall>c r0 r0'. HasRun r0 \<longrightarrow> perform N c r0 = Some r0' \<longrightarrow> HasRun r0')"
proof -
  from Run_sets_HasRun[OF assms] have i: "Initialised r1" and h: "HasRun r1" by simp_all
  have a: "\<And>lg'. Run N lg' r1 = Some (Some ErrRegressionRun, r1)"
    using i h by (simp add: Run_already)
  have b: "runTwice N lg r = Some (e1, Some ErrRegressionRun, r1)"
    using assms(2) a by (simp add: runTwice_def)
  have c: "\<forall>calls r2 lg3. performAll N calls r1 = Some r2 \<longrightarrow>
          HasRun r2 \<and> Run N lg3 r2 = Some (Some ErrRegressionRun, r2)"
    using Run_after_calls[OF i h] by blast
  have d: "\<forall>c r0 r0'. HasRun r0 \<longrightarrow> perform N c r0 = Some r0' \<longrightarrow> HasRun r0'"
    using perform_preserves by blast
  from a b c d show ?thesis by blast
qed

theorem C1_witness:
  "Initialised fourModel
   \<and> Run exact False fourModel = Some (None, fittedModel)
   \<and> Run exact True fittedModel = Some (Some ErrRegressionRun, fittedModel)
   \<and> runTwice exact False fourModel = Some (None, Some ErrRegressionRun, fittedModel)
   \<and> (\<exists>r2. performAll exact
               [CallTrain fourPoints, CallAddCross (PowCross exact 0 2), CallPredict [3]] fittedModel
             = Some r2
          \<and> HasRun r2 \<and> Run exact False r2 = Some (Some ErrRegressionRun, r2))"
proof -
  have i: "Initialised fourModel"
    by (simp add: model_defs exact_defs)
  note t = C1_second_Run_already_run[OF i Run_fourModel, of True]
  obtain r2 where r2: "performAll exact
      [CallTrain fourPoints, CallAddCross (PowCross exact 0 2), CallPredict [3]] fittedModel = Some r2"
    by (simp add: model_defs exact_defs loop_simps Let_def fittedModel_def)
  from t r2 show ?thesis using i Run_fourModel by blast
qed

text \<open>
  The claim C1 as stated fails on the zero model: \<^verbatim>\<open>Run\<close> twice gives \<open>ErrNotEnoughData\<close>
  twice.
\<close>

theorem C1_uninitialised_counterexample:
  "runTwice exact False (newRegression :: rat Regression)
   = Some (Some ErrNotEnoughData, Some ErrNotEnoughData, newRegression)"
  by (simp add: runTwice_def Run_def newRegression_def)

lemma applyCrosses_points:
  assumes "applyCrosses r = Some r1"
  shows "length (Data r1) = length (Data r) \<and>
    (\<forall>i<length (Data r). crossVars (Crosses r) (Variables (Data r ! i)) = Some (Variables (Data r1 ! i))
        \<and> Observed (Data r1 ! i) = Observed (Data r ! i))"
proof -
  note a = applyCrosses_Some[OF assms]
  have "\<And>i. i < length (Data r) \<Longrightarrow>
      crossVars (Crosses r) (Variables (Data r ! i)) = Some (Variables (Data r1 ! i))
      \<and> Observed (Data r1 ! i) = Observed (Data r ! i)"
  proof -
    fix i assume i: "i < length (Data r)"
    from crossPoints_nth[OF a(2) i]
    have c: "crossVars (Crosses r) (Variables (Data r ! i)) = Some (Variables (Data r1 ! i))"
      and e: "Data r1 ! i = (Data r ! i)\<lparr>Variables := Variables (Data r1 ! i)\<rparr>"
      by simp_all
    have "Observed (Data r1 ! i) = Observed ((Data r ! i)\<lparr>Variables := Variables (Data r1 ! i)\<rparr>)"
      using e by simp
    then show "crossVars (Crosses r) (Variables (Data r ! i)) = Some (Variables (Data r1 ! i))
      \<and> Observed (Data r1 ! i) = Observed (Data r ! i)"
      using c by simp
  qed
  with a(3) show ?thesis by blast
qed

lemma Run_TooManyVars_iff:
  "Run N lg r = Some (Some ErrTooManyVars, r') \<longleftrightarrow>
   Initialised r \<and> \<not> HasRun r \<and>
   (\<exists>r1. applyCrosses r = Some r1 \<and> length (Data r1) < length (Variables (Data r1 ! 0)) + 1
         \<and> r' = r1\<lparr>HasRun := True\<rparr>)"
proof
  assume "Run N lg r = Some (Some ErrTooManyVars, r')"
  then show "Initialised r \<and> \<not> HasRun r \<and>
   (\<exists>r1. applyCrosses r = Some r1 \<and> length (Data r1) < length (Variables (Data r1 ! 0)) + 1
         \<and> r' = r1\<lparr>HasRun := True\<rparr>)"
    by (cases rule: Run_cases) simp_all
next
  assume "Initialised r \<and> \<not> HasRun r \<and>
   (\<exists>r1. applyCrosses r = Some r1 \<and> length (Data r1) < length (Variables (Data r1 ! 0)) + 1
         \<and> r' = r1\<lparr>HasRun := True\<rparr>)"
  then show "Run N lg r = Some (Some ErrTooManyVars, r')"
    by (auto simp: Run_def Let_def)
qed

lemma Run_crossedModel:
  "\<exists>r'. Run exact False crossedModel = Some (Some ErrTooManyVars, r')
     \<and> map Variables (Data r') = [[1, 1, 1, 1], [- 1, 1, - 1, 1], [1, 1, 1, 1], [- 1, 1, - 1, 1]]"
  by (simp add: model_defs exact_defs loop_simps Let_def)

subsection \<open>The under-determination check\<close>

text \<open>
  Claim C3. On an initialised model that has not run, \<^verbatim>\<open>Run\<close> first applies the crosses
  (\<^verbatim>\<open>applyCrosses\<close>: every registered cross, in order, on the variables of every stored
  point) and compares only then: when the crossed model has fewer points than the number
  of variables of its first point plus one, \<^verbatim>\<open>Run\<close> returns \<open>ErrTooManyVars\<close>, and it returns
  that error in no other case. A cross that panics on some point makes \<^verbatim>\<open>Run\<close> panic
  before any comparison. Crosses can cause the failure by themselves: \<open>fourModel\<close> (four
  points, one variable) is fitted without error, and the same model with three power
  crosses fails with \<open>ErrTooManyVars\<close>.
\<close>

theorem C3_too_many_vars_after_crosses:
  "(Initialised r \<and> \<not> HasRun r \<and> applyCrosses r = Some r1
      \<and> length (Data r1) < length (Variables (Data r1 ! 0)) + 1
      \<longrightarrow> Run N lg r = Some (Some ErrTooManyVars, r1\<lparr>HasRun := True\<rparr>))
   \<and> (Run N lg r = Some (Some ErrTooManyVars, r') \<longrightarrow>
        (\<exists>r1. applyCrosses r = Some r1 \<and> length (Data r1) < length (Variables (Data r1 ! 0)) + 1))
   \<and> (applyCrosses r = Some r1 \<longrightarrow>
        length (Data r1) = length (Data r) \<and>
        (\<forall>i<length (Data r).
            crossVars (Crosses r) (Variables (Data r ! i)) = Some (Variables (Data r1 ! i))))
   \<and> (Initialised r \<and> \<not> HasRun r \<and> applyCrosses r = None \<longrightarrow> Run N lg r = None)
   \<and> map_option fst (Run exact False fourModel) = Some None
   \<and> map_option fst (Run exact False crossedModel) = Some (Some ErrTooManyVars)"
proof -
  have a: "Initialised r \<and> \<not> HasRun r \<and> applyCrosses r = Some r1
      \<and> length (Data r1) < length (Variables (Data r1 ! 0)) + 1
      \<longrightarrow> Run N lg r = Some (Some ErrTooManyVars, r1\<lparr>HasRun := True\<rparr>)"
    using Run_TooManyVars_iff[of N lg r "r1\<lparr>HasRun := True\<rparr>"] by blast
  have b: "Run N lg r = Some (Some ErrTooManyVars, r') \<longrightarrow>
        (\<exists>r1. applyCrosses r = Some r1 \<and> length (Data r1) < length (Variables (Data r1 ! 0)) + 1)"
    using Run_TooManyVars_iff[of N lg r r'] by blast
  have c: "applyCrosses r = Some r1 \<longrightarrow>
        length (Data r1) = length (Data r) \<and>
        (\<forall>i<length (Data r).
            crossVars (Crosses r) (Variables (Data r ! i)) = Some (Variables (Data r1 ! i)))"
    using applyCrosses_points[of r r1] by blast
  have d: "Initialised r \<and> \<not> HasRun r \<and> applyCrosses r = None \<longrightarrow> Run N lg r = None"
    by (simp add: Run_def)
  have e: "map_option fst (Run exact False fourModel) = Some None"
    by (simp add: Run_fourModel)
  have f: "map_option fst (Run exact False crossedModel) = Some (Some ErrTooManyVars)"
    using Run_crossedModel by auto
  show ?thesis
    by (intro conjI) (rule a, rule b, rule c, rule d, rule e, rule f)
qed

theorem C3_witness:
  "Initialised crossedModel \<and> \<not> HasRun crossedModel
   \<and> (\<exists>r1. applyCrosses crossedModel = Some r1
        \<and> map Variables (Data r1) = [[1, 1, 1, 1], [- 1, 1, - 1, 1], [1, 1, 1, 1], [- 1, 1, - 1, 1]]
        \<and> length (Data r1) < length (Variables (Data r1 ! 0)) + 1
        \<and> Run exact False crossedModel = Some (Some ErrTooManyVars, r1\<lparr>HasRun := True\<rparr>))
   \<and> map_option fst (Run exact False fourModel) = Some None"
proof -
  have i: "Initialised crossedModel" and h: "\<not> HasRun crossedModel"
    by (simp_all add: model_defs exact_defs)
  have "\<exists>r1. applyCrosses crossedModel = Some r1
    \<and> map Variables (Data r1) = [[1, 1, 1, 1], [- 1, 1, - 1, 1], [1, 1, 1, 1], [- 1, 1, - 1, 1]]
    \<and> length (Data r1) < length (Variables (Data r1 ! 0)) + 1"
    by (simp add: model_defs exact_defs)
  then obtain r1 where r1: "applyCrosses crossedModel = Some r1"
    and v: "map Variables (Data r1) = [[1, 1, 1, 1], [- 1, 1, - 1, 1], [1, 1, 1, 1], [- 1, 1, - 1, 1]]"
    and l: "length (Data r1) < length (Variables (Data r1 ! 0)) + 1"
    by (elim exE conjE)
  note t = C3_too_many_vars_after_crosses[of crossedModel r1 exact False]
  have run: "Run exact False crossedModel = Some (Some ErrTooManyVars, r1\<lparr>HasRun := True\<rparr>)"
    using conjunct1[OF t] i h r1 l by simp
  have four: "map_option fst (Run exact False fourModel) = Some None"
    by (simp add: Run_fourModel)
  show ?thesis
    apply (intro conjI exI[of _ r1])
    apply (rule i, rule h, rule r1, rule v, rule l, rule run, rule four)
    done
qed

subsection \<open>A failed Run leaves its mark\<close>

text \<open>
  Claim C9. When \<^verbatim>\<open>Run\<close> returns \<open>ErrTooManyVars\<close>, the model it leaves is the crossed
  model with \<open>HasRun\<close> set: the flag was not set before and is set now (so the model has
  changed), every stored point holds its variables extended by all registered crosses, and
  every later call of \<^verbatim>\<open>Run\<close>, directly or after any further calls of the core operations,
  returns \<open>ErrRegressionRun\<close>: the fit is never retried.
\<close>

theorem C9_failed_Run_is_not_atomic:
  assumes "Run N lg r = Some (Some ErrTooManyVars, r')"
  shows "\<not> HasRun r \<and> HasRun r' \<and> r' \<noteq> r
    \<and> (\<exists>r1. applyCrosses r = Some r1 \<and> r' = r1\<lparr>HasRun := True\<rparr>)
    \<and> length (Data r') = length (Data r)
    \<and> (\<forall>i<length (Data r).
          crossVars (Crosses r) (Variables (Data r ! i)) = Some (Variables (Data r' ! i)))
    \<and> Run N lg2 r' = Some (Some ErrRegressionRun, r')
    \<and> (\<forall>calls r2 lg3. performAll N calls r' = Some r2 \<longrightarrow>
          Run N lg3 r2 = Some (Some ErrRegressionRun, r2))"
proof -
  from assms obtain r1 where i: "Initialised r" and h: "\<not> HasRun r"
    and a: "applyCrosses r = Some r1" and r': "r' = r1\<lparr>HasRun := True\<rparr>"
    unfolding Run_TooManyVars_iff by (elim conjE exE)
  have h': "HasRun r'" using r' by simp
  have i': "Initialised r'" using r' i applyCrosses_Some(4)[OF a] by simp
  have ne: "r' \<noteq> r" using h h' by auto
  have d: "Data r' = Data r1" using r' by simp
  note p = applyCrosses_points[OF a]
  have l: "length (Data r') = length (Data r)" using p d by simp
  have c: "\<forall>i<length (Data r).
          crossVars (Crosses r) (Variables (Data r ! i)) = Some (Variables (Data r' ! i))"
    using p d by simp
  have again: "Run N lg2 r' = Some (Some ErrRegressionRun, r')"
    using i' h' by (rule Run_already)
  have later: "\<forall>calls r2 lg3. performAll N calls r' = Some r2 \<longrightarrow>
          Run N lg3 r2 = Some (Some ErrRegressionRun, r2)"
    using Run_after_calls[OF i' h'] by simp
  have ex: "\<exists>r1. applyCrosses r = Some r1 \<and> r' = r1\<lparr>HasRun := True\<rparr>"
    using a r' by (intro exI[of _ r1] conjI)
  show ?thesis
    by (intro conjI) (rule h, rule h', rule ne, rule ex, rule l, rule c, rule again, rule later)
qed

theorem C9_witness:
  "\<exists>r'. Run exact False crossedModel = Some (Some ErrTooManyVars, r')
      \<and> map Variables (Data crossedModel) = [[1], [- 1], [1], [- 1]]
      \<and> map Variables (Data r') = [[1, 1, 1, 1], [- 1, 1, - 1, 1], [1, 1, 1, 1], [- 1, 1, - 1, 1]]
      \<and> \<not> HasRun crossedModel \<and> HasRun r'
      \<and> Run exact False r' = Some (Some ErrRegressionRun, r')
      \<and> (\<exists>r2. performAll exact [CallTrain fourPoints, CallRun True] r' = Some r2
            \<and> Run exact False r2 = Some (Some ErrRegressionRun, r2))"
proof -
  from Run_crossedModel obtain r' where
    run: "Run exact False crossedModel = Some (Some ErrTooManyVars, r')"
    and v: "map Variables (Data r') = [[1, 1, 1, 1], [- 1, 1, - 1, 1], [1, 1, 1, 1], [- 1, 1, - 1, 1]]"
    by (elim exE conjE)
  note t = C9_failed_Run_is_not_atomic[OF run, of False]
  have v0: "map Variables (Data crossedModel) = [[1], [- 1], [1], [- 1]]"
    by (simp add: model_defs exact_defs)
  have h: "\<not> HasRun crossedModel" and h': "HasRun r'"
    and again: "Run exact False r' = Some (Some ErrRegressionRun, r')"
    using t by simp_all
  have later: "\<forall>calls r2 lg3. performAll exact calls r' = Some r2 \<longrightarrow>
          Run exact lg3 r2 = Some (Some ErrRegressionRun, r2)"
    using t by (elim conjE)
  have pa: "performAll exact [CallTrain fourPoints, CallRun True] r'
        = Some (Train fourPoints r')"
  proof -
    have "Initialised (Train fourPoints r')" "HasRun (Train fourPoints r')"
      using h' by (simp_all add: Train_def fourPoints_def Let_def)
    then have "Run exact True (Train fourPoints r') = Some (Some ErrRegressionRun, Train fourPoints r')"
      by (rule Run_already)
    then show ?thesis by simp
  qed
  from later[rule_format, OF pa]
  have "Run exact False (Train fourPoints r') = Some (Some ErrRegressionRun, Train fourPoints r')" .
  with pa have ex: "\<exists>r2. performAll exact [CallTrain fourPoints, CallRun True] r' = Some r2
            \<and> Run exact False r2 = Some (Some ErrRegressionRun, r2)"
    by (intro exI[of _ "Train fourPoints r'"] conjI)
  show ?thesis
    apply (rule exI[of _ r'])
    apply (intro conjI)
    apply (rule run, rule v0, rule v, rule h, rule h', rule again, rule ex)
    done
qed

subsection \<open>Data points from a table\<close>

lemma map_nth_take: "k \<le> length xs \<Longrightarrow> map (\<lambda>i. xs ! i) [0..<k] = take k xs"
  by (rule nth_equalityI) simp_all

lemma map_nth_drop: "map (\<lambda>i. xs ! i) [k..<length xs] = drop k xs"
  by (rule nth_equalityI) simp_all

lemma others_split:
  assumes "k < length row"
  shows "map (\<lambda>i. row ! i) (filter (\<lambda>i. i \<noteq> k) [0..<length row]) = take k row @ drop (Suc k) row"
proof -
  have "[0..<length row] = [0..<k] @ k # [Suc k..<length row]"
    using assms by (metis upt_conv_Cons upt_add_eq_append le0 le_add_diff_inverse less_imp_le_nat add_0)
  then have "filter (\<lambda>i. i \<noteq> k) [0..<length row] = [0..<k] @ [Suc k..<length row]"
    by (simp add: filter_id_conv)
  then show ?thesis
    using assms by (simp add: map_nth_take map_nth_drop)
qed

lemma othersLoop_eq:
  "othersLoop (int k) i row others =
     (if i \<le> k then others @ take (k - i) row @ drop (Suc (k - i)) row else others @ row)"
proof (induction row arbitrary: i others)
  case Nil
  then show ?case by simp
next
  case (Cons c rest)
  show ?case
  proof (cases "i = k")
    case True
    then show ?thesis by (simp add: Cons.IH)
  next
    case False
    then show ?thesis by (auto simp: Cons.IH Suc_diff_le Suc_diff_Suc take_Cons' drop_Cons')
  qed
qed

lemma perverseLoop_eq:
  "\<forall>row\<in>set a. k < length row \<Longrightarrow>
   perverseLoop (int k) a retVal =
     Some (retVal @ map (\<lambda>row. DataPointWrapper (row ! k) (take k row @ drop (Suc k) row)) a)"
  by (induction a arbitrary: retVal) (simp_all add: othersLoop_eq)

lemma firstLoop_eq:
  "\<forall>row\<in>set a. 0 < length row \<Longrightarrow>
   firstLoop a retVal = Some (retVal @ map (\<lambda>row. DataPointWrapper (row ! 0) (drop 1 row)) a)"
  by (induction a arbitrary: retVal) simp_all

lemma lastLoop_eq:
  "\<forall>row\<in>set a. k < length row \<Longrightarrow>
   lastLoop (int k) a retVal = Some (retVal @ map (\<lambda>row. DataPointWrapper (row ! k) (take k row)) a)"
  by (induction a arbitrary: retVal) simp_all

lemma tableDataPoints_eq:
  "\<forall>row\<in>set a. k < length row \<Longrightarrow>
   tableDataPoints a k = map (\<lambda>row. DataPointWrapper (row ! k) (take k row @ drop (Suc k) row)) a"
  by (simp add: tableDataPoints_def DataPointWrapper_def others_split)

text \<open>
  Claim C8. For a table with at least one row, all rows as long as the first, and an index
  of a column of the table, \<^verbatim>\<open>MakeDataPoints\<close> returns (without panic) one data point per
  row, with the observed value \<open>row[index]\<close> and as variables all other entries of the row
  in their order: the list \<open>tableDataPoints\<close> of the specification. The slow path
  \<^verbatim>\<open>perverseMakeDataPoints\<close> returns the same list for every such index, the first and
  the last column included, so the fast paths and the slow path agree.
\<close>

theorem C8_MakeDataPoints_splits_rows:
  assumes "a \<noteq> []" and "\<forall>row\<in>set a. length row = length (a ! 0)"
    and "0 \<le> obsIndex" and "obsIndex < int (length (a ! 0))"
  shows "MakeDataPoints a obsIndex = Some (tableDataPoints a (nat obsIndex))
       \<and> perverseMakeDataPoints a obsIndex = Some (tableDataPoints a (nat obsIndex))"
proof -
  define k where "k = nat obsIndex"
  define n where "n = length (a ! 0)"
  have o: "obsIndex = int k" using assms(3) by (simp add: k_def)
  have kn: "k < n" using assms(3,4) by (simp add: k_def n_def)
  have rows: "\<forall>row\<in>set a. length row = n" using assms(2) by (simp add: n_def)
  then have all: "\<forall>row\<in>set a. k < length row" using kn by simp
  have spec: "tableDataPoints a k = map (\<lambda>row. DataPointWrapper (row ! k) (take k row @ drop (Suc k) row)) a"
    using all by (rule tableDataPoints_eq)
  have slow: "perverseMakeDataPoints a obsIndex = Some (tableDataPoints a k)"
    by (simp add: perverseMakeDataPoints_def o perverseLoop_eq[OF all] spec)
  have fast: "MakeDataPoints a obsIndex = Some (tableDataPoints a k)"
  proof (cases "k = 0")
    case True
    have "\<forall>row\<in>set a. 0 < length row" using all True by simp
    from firstLoop_eq[OF this, of "[]"] spec show ?thesis
      by (simp add: MakeDataPoints_def o True)
  next
    case False
    show ?thesis
    proof (cases "k = n - 1")
      case True
      have "map (\<lambda>row. DataPointWrapper (row ! k) (take k row @ drop (Suc k) row)) a
            = map (\<lambda>row. DataPointWrapper (row ! k) (take k row)) a"
        using rows True kn by simp
      with spec have sp: "tableDataPoints a k = map (\<lambda>row. DataPointWrapper (row ! k) (take k row)) a"
        by simp
      have ik: "int (length (a ! 0)) - 1 = int k"
        using True kn by (simp add: n_def of_nat_diff)
      from False assms(1) show ?thesis
        by (simp add: MakeDataPoints_def o ik lastLoop_eq[OF all] sp)
    next
      case nl: False
      then have "int k \<noteq> int (length (a ! 0)) - 1" using kn by (simp add: n_def) 
      with slow False assms(1) show ?thesis
        by (simp add: MakeDataPoints_def o)
    qed
  qed
  from fast slow show ?thesis by (simp add: k_def)
qed

theorem C8_witness:
  "MakeDataPoints testTable 0
     = Some [DataPointWrapper 1 [2, 3, 4], DataPointWrapper 2 [2, 3, 4], DataPointWrapper 3 [2, 3, 4]]
   \<and> MakeDataPoints testTable 1
     = Some [DataPointWrapper 2 [1, 3, 4], DataPointWrapper 2 [2, 3, 4], DataPointWrapper 2 [3, 3, 4]]
   \<and> MakeDataPoints testTable 3
     = Some [DataPointWrapper 4 [1, 2, 3], DataPointWrapper 4 [2, 2, 3], DataPointWrapper 4 [3, 2, 3]]
   \<and> perverseMakeDataPoints testTable 3 = MakeDataPoints testTable 3
   \<and> perverseMakeDataPoints testTable 0 = MakeDataPoints testTable 0"
proof -
  have t: "testTable \<noteq> []" "\<forall>row\<in>set testTable. length row = length (testTable ! 0)"
    by (simp_all add: testTable_def)
  have l: "(0::int) < int (length (testTable ! 0))" "(1::int) < int (length (testTable ! 0))"
    "(3::int) < int (length (testTable ! 0))"
    by (simp_all add: testTable_def)
  have a: "\<forall>row\<in>set testTable. 0 < length row" "\<forall>row\<in>set testTable. 1 < length row"
    "\<forall>row\<in>set testTable. 3 < length row"
    by (simp_all add: testTable_def)
  have v: "tableDataPoints testTable 0
       = [DataPointWrapper 1 [2, 3, 4], DataPointWrapper 2 [2, 3, 4], DataPointWrapper 3 [2, 3, 4]]"
     "tableDataPoints testTable 1
       = [DataPointWrapper 2 [1, 3, 4], DataPointWrapper 2 [2, 3, 4], DataPointWrapper 2 [3, 3, 4]]"
     "tableDataPoints testTable 3
       = [DataPointWrapper 4 [1, 2, 3], DataPointWrapper 4 [2, 2, 3], DataPointWrapper 4 [3, 2, 3]]"
    unfolding tableDataPoints_eq[OF a(1)] tableDataPoints_eq[OF a(2)] tableDataPoints_eq[OF a(3)]
    by (simp_all add: testTable_def)
  from C8_MakeDataPoints_splits_rows[OF t, of 0] C8_MakeDataPoints_splits_rows[OF t, of 1] C8_MakeDataPoints_splits_rows[OF t, of 3] l v
  show ?thesis by simp
qed

subsection \<open>Prediction\<close>

lemma predictLoop_Some:
  "k \<le> length vars \<Longrightarrow> 1 \<le> j \<Longrightarrow>
   predictLoop N r vars k j p =
     Some (foldl (\<lambda>p i. fadd N p (fmul N (Coeff r (int i)) (vars ! (i - 1)))) p [j..<k + 1])"
proof (induction N r vars k j p rule: predictLoop.induct)
  case (1 N r vars k j p)
  show ?case
  proof (cases "j < k + 1")
    case True
    with "1.prems" have in_range: "j - 1 < length vars" by simp
    have u: "[j..<Suc k] = j # [Suc j..<Suc k]"
      using True by (simp add: upt_conv_Cons)
    from "1.IH"[OF True in_range "1.prems"(1)] True in_range show ?thesis
      by (subst predictLoop.simps) (simp add: u del: upt_Suc)
  next
    case False
    then show ?thesis by (subst predictLoop.simps) simp
  qed
qed

lemma predictLoop_None:
  "length vars < k \<Longrightarrow> 1 \<le> j \<Longrightarrow> j \<le> k \<Longrightarrow> predictLoop N r vars k j p = None"
proof (induction N r vars k j p rule: predictLoop.induct)
  case (1 N r vars k j p)
  show ?case
  proof (cases "j - 1 < length vars")
    case True
    with "1.prems" have "j < k + 1" "j + 1 \<le> k" by simp_all
    with "1.IH"[OF this(1) True "1.prems"(1)] True show ?thesis
      by (subst predictLoop.simps) simp
  next
    case False
    with "1.prems" show ?thesis by (subst predictLoop.simps) simp
  qed
qed

lemma crossVars_prefix: "crossVars cs vars = Some vars' \<Longrightarrow> take (length vars) vars' = vars"
proof (induction cs arbitrary: vars)
  case Nil
  then show ?case by simp
next
  case (Cons c cs)
  then obtain new where n: "Calculate c vars = Some new" and r: "crossVars cs (vars @ new) = Some vars'"
    by (auto split: option.splits)
  from Cons.IH[OF r] have "take (length vars + length new) vars' = vars @ new" by simp
  then have "take (length vars) (take (length vars + length new) vars') = take (length vars) (vars @ new)"
    by simp
  then show ?case by (simp add: min_def)
qed

lemma Coeff_cong: "CoeffMap r = CoeffMap r' \<Longrightarrow> Coeff r i = Coeff r' i"
  by (simp add: Coeff_def)

lemma predictLoop_cong:
  assumes "CoeffMap r = CoeffMap r'"
  shows "predictLoop N r vs k j p = predictLoop N r' vs k j p"
  using assms
proof (induction N r vs k j p rule: predictLoop.induct)
  case (1 N r vars k j p)
  have co: "Coeff r (int j) = Coeff r' (int j)"
    using "1.prems" by (rule Coeff_cong)
  show ?case
  proof (cases "j < k + 1 \<and> j - 1 < length vars")
    case True
    then have a: "j < k + 1" and b: "j - 1 < length vars" by simp_all
    from "1.IH"[OF a b "1.prems"] a b show ?thesis
      by (subst predictLoop.simps, subst (2) predictLoop.simps) (simp add: co)
  next
    case False
    then show ?thesis
      by (subst predictLoop.simps, subst (2) predictLoop.simps) auto
  qed
qed

lemma Predict_cong:
  assumes "Initialised r = Initialised r'" and "Crosses r = Crosses r'"
    and "CoeffMap r = CoeffMap r'"
    and "map (\<lambda>d. length (Variables d)) (take 1 (Data r))
         = map (\<lambda>d. length (Variables d)) (take 1 (Data r'))"
  shows "Predict N r vars = Predict N r' vars"
proof (cases "Data r")
  case Nil
  with assms(4) have "Data r' = []" by simp
  with Nil assms(1,2) show ?thesis by (simp add: Predict_def split: option.splits)
next
  case (Cons d ds)
  with assms(4) obtain d' ds' where c': "Data r' = d' # ds'"
    and l: "length (Variables d') = length (Variables d)"
    by (cases "Data r'") simp_all
  from Cons c' l assms(1,2) show ?thesis
    by (simp add: Predict_def predictLoop_cong[OF assms(3)] Coeff_cong[OF assms(3)]
             split: option.splits)
qed

lemma Predict_error_iff:
  "(\<exists>v e. Predict N r vars = Some (v, Some e)) \<longleftrightarrow> \<not> Initialised r"
  by (auto simp: Predict_def split: option.splits list.splits)

text \<open>
  Claim C6. \<^verbatim>\<open>Predict\<close> returns an error exactly when the model is not initialised, and the
  error is then \<open>ErrNotEnoughData\<close> (with the value \<open>0\<close>); the flag \<open>HasRun\<close> plays no part.
  On an initialised model it applies the registered crosses in order to the given vector,
  each appending its values (the given vector is a prefix of the crossed one), and with
  \<open>k\<close> the number of variables of the first stored point it returns
  \<open>Coeff 0 + Coeff 1 * v[0] + ... + Coeff k * v[k - 1]\<close> over the crossed vector \<open>v\<close>, summed
  from the left. The entries \<open>v[i - 1]\<close> of the formula must exist: on a crossed vector
  with fewer than \<open>k\<close> entries the code panics (index out of range), and returns no error.
\<close>

theorem C6_Predict:
  "((\<exists>v e. Predict N r vars = Some (v, Some e)) \<longleftrightarrow> \<not> Initialised r)
   \<and> (\<not> Initialised r \<longrightarrow> Predict N r vars = Some (0, Some ErrNotEnoughData))
   \<and> Predict N (r\<lparr>HasRun := b\<rparr>) vars = Predict N r vars
   \<and> (Initialised r \<longrightarrow> crossVars (Crosses r) vars = Some vars' \<longrightarrow> Data r = first # rest \<longrightarrow>
        take (length vars) vars' = vars \<and>
        (length (Variables first) \<le> length vars' \<longrightarrow>
           Predict N r vars =
             Some (foldl (\<lambda>p i. fadd N p (fmul N (Coeff r (int i)) (vars' ! (i - 1))))
                     (Coeff r 0) [1..<length (Variables first) + 1], None)) \<and>
        (length vars' < length (Variables first) \<longrightarrow> Predict N r vars = None))"
proof -
  have a: "(\<exists>v e. Predict N r vars = Some (v, Some e)) \<longleftrightarrow> \<not> Initialised r"
    by (rule Predict_error_iff)
  have b: "\<not> Initialised r \<longrightarrow> Predict N r vars = Some (0, Some ErrNotEnoughData)"
    by (simp add: Predict_def)
  have c: "Predict N (r\<lparr>HasRun := b\<rparr>) vars = Predict N r vars"
    by (rule Predict_cong) simp_all
  have d: "Initialised r \<longrightarrow> crossVars (Crosses r) vars = Some vars' \<longrightarrow> Data r = first # rest \<longrightarrow>
        take (length vars) vars' = vars \<and>
        (length (Variables first) \<le> length vars' \<longrightarrow>
           Predict N r vars =
             Some (foldl (\<lambda>p i. fadd N p (fmul N (Coeff r (int i)) (vars' ! (i - 1))))
                     (Coeff r 0) [1..<length (Variables first) + 1], None)) \<and>
        (length vars' < length (Variables first) \<longrightarrow> Predict N r vars = None)"
    by (simp add: Predict_def predictLoop_Some predictLoop_None crossVars_prefix del: upt_Suc)
  show ?thesis
    by (intro conjI) (rule a, rule b, rule c, rule d)
qed

theorem C6_witness:
  "Predict exact newRegression [3] = Some (0, Some ErrNotEnoughData)
   \<and> Initialised (AddCross (PowCross exact 0 2) fittedModel)
   \<and> crossVars (Crosses (AddCross (PowCross exact 0 2) fittedModel)) [3] = Some [3, 9]
   \<and> Predict exact (AddCross (PowCross exact 0 2) fittedModel) [3] = Some (9, None)
   \<and> Predict exact (AddCross (PowCross exact 0 2) fittedModel) [] = None"
proof -
  let ?r = "AddCross (PowCross exact 0 2) fittedModel"
  let ?first = "\<lparr>Observed = 5, Variables = [1], Predicted = 5, Error = 0\<rparr> :: rat DataPoint"
  let ?rest = "[\<lparr>Observed = 1, Variables = [- 1], Predicted = 1, Error = 0\<rparr>,
                \<lparr>Observed = 5, Variables = [1], Predicted = 5, Error = 0\<rparr>,
                \<lparr>Observed = 1, Variables = [- 1], Predicted = 1, Error = 0\<rparr>] :: rat DataPoint list"
  have u: "\<not> Initialised (newRegression :: rat Regression)"
    by (simp add: newRegression_def)
  have i: "Initialised ?r" and d: "Data ?r = ?first # ?rest"
    by (simp_all add: AddCross_def fittedModel_def)
  have c: "crossVars (Crosses ?r) [3] = Some [3, 9]"
    by (simp add: AddCross_def fittedModel_def PowCross_def exact_def)
  have c0: "crossVars (Crosses ?r) [] = None"
    by (simp add: AddCross_def fittedModel_def PowCross_def exact_def)
  have co: "Coeff ?r 0 = 3" "Coeff ?r 1 = 2"
    by (simp_all add: Coeff_def AddCross_def fittedModel_def)
  have a: "Predict exact newRegression [3] = Some (0 :: rat, Some ErrNotEnoughData)"
    using C6_Predict[where r="newRegression :: rat Regression" and N=exact and vars="[3]"] u by simp
  have "Predict exact ?r [3]
        = Some (foldl (\<lambda>p i. fadd exact p (fmul exact (Coeff ?r (int i)) ([3, 9] ! (i - 1))))
                  (Coeff ?r 0) [1..<length (Variables ?first) + 1], None)"
    using C6_Predict[where r="?r" and N=exact and vars="[3]" and vars'="[3, 9]" and first="?first"
        and rest="?rest"] i d c by simp
  then have b: "Predict exact ?r [3] = Some (9, None)"
    by (simp add: co) (simp add: exact_def)
  have e: "Predict exact ?r [] = None"
    using i c0 by (simp add: Predict_def)
  show ?thesis
    by (intro conjI) (rule a, rule i, rule c, rule b, rule e)
qed

lemma foldl_fixed: "(\<And>i. i \<in> set xs \<Longrightarrow> f p i = p) \<Longrightarrow> foldl f p xs = p"
  by (induction xs) simp_all

lemma Coeff_empty: "Mapping.is_empty (CoeffMap r) \<Longrightarrow> Coeff r i = 0"
  by (simp add: Coeff_def)

text \<open>
  Claim C10, as the code has it. With an empty coefficient map \<^verbatim>\<open>Coeff\<close> is \<open>0\<close> at every
  index. The claim lets \<^verbatim>\<open>Predict\<close> return \<open>0\<close> for every input vector; but an input whose
  crossed vector is shorter than the first stored point's variables makes the loop read
  out of range, and the call panics (the evaluation after the theorem). For an
  initialised model with an empty coefficient map and an input whose crossed vector has
  at least as many entries as the first stored point has variables, \<^verbatim>\<open>Predict\<close> returns no
  error and the value \<open>0 + 0 * v[0] + ... + 0 * v[k - 1]\<close>; that value is \<open>0\<close> when
  \<open>0 + 0 = 0\<close> and \<open>0 * v[i] = 0\<close> for the entries read, which is so for exact arithmetic
  and for every finite \<^verbatim>\<open>float64\<close>.
\<close>

theorem C10_Predict_without_coefficients:
  assumes "Initialised r" and "Mapping.is_empty (CoeffMap r)"
    and "crossVars (Crosses r) vars = Some vars'" and "Data r = first # rest"
    and "length (Variables first) \<le> length vars'"
  shows "(\<forall>i. Coeff r i = 0)
    \<and> Predict N r vars =
        Some (foldl (\<lambda>p i. fadd N p (fmul N 0 (vars' ! (i - 1)))) 0
                [1..<length (Variables first) + 1], None)
    \<and> (fadd N 0 0 = 0 \<longrightarrow> (\<forall>i<length (Variables first). fmul N 0 (vars' ! i) = 0) \<longrightarrow>
          Predict N r vars = Some (0, None))"
proof -
  have z: "\<forall>i. Coeff r i = 0" using assms(2) by (simp add: Coeff_empty)
  have p: "Predict N r vars =
        Some (foldl (\<lambda>p i. fadd N p (fmul N 0 (vars' ! (i - 1)))) 0
                [1..<length (Variables first) + 1], None)"
    using assms(1,3,4,5) z
    by (simp add: Predict_def predictLoop_Some del: upt_Suc)
  have q: "fadd N 0 0 = 0 \<longrightarrow> (\<forall>i<length (Variables first). fmul N 0 (vars' ! i) = 0) \<longrightarrow>
          Predict N r vars = Some (0, None)"
  proof (intro impI)
    assume a: "fadd N 0 0 = 0" and m: "\<forall>i<length (Variables first). fmul N 0 (vars' ! i) = 0"
    have "foldl (\<lambda>p i. fadd N p (fmul N 0 (vars' ! (i - 1)))) 0
                [1..<length (Variables first) + 1] = 0"
    proof (rule foldl_fixed)
      fix i assume "i \<in> set [1..<length (Variables first) + 1]"
      then have "i - 1 < length (Variables first)" by auto
      with m have "fmul N 0 (vars' ! (i - 1)) = 0" by simp
      with a show "fadd N 0 (fmul N 0 (vars' ! (i - 1))) = 0" by simp
    qed
    with p show "Predict N r vars = Some (0, None)" by simp
  qed
  show ?thesis
    by (intro conjI) (rule z, rule p, rule q)
qed

theorem C10_witness:
  "Initialised fourModel \<and> Mapping.is_empty (CoeffMap fourModel)
   \<and> crossVars (Crosses fourModel) [3] = Some [3]
   \<and> Coeff fourModel 0 = 0 \<and> Coeff fourModel 1 = 0
   \<and> Predict exact fourModel [3] = Some (0, None)"
proof -
  let ?first = "DataPointWrapper 5 [1] :: rat DataPoint"
  let ?rest = "[DataPointWrapper 1 [- 1], DataPointWrapper 5 [1], DataPointWrapper 1 [- 1]]
               :: rat DataPoint list"
  have i: "Initialised fourModel" and e: "Mapping.is_empty (CoeffMap fourModel)"
    and c: "crossVars (Crosses fourModel) [3] = Some [3]"
    and d: "Data fourModel = ?first # ?rest"
    and l: "length (Variables ?first) \<le> length [3 :: rat]"
    by (simp_all add: model_defs exact_defs)
  note t = C10_Predict_without_coefficients[OF i e c d l, of exact]
  have laws: "fadd exact 0 0 = 0" "\<forall>i<length (Variables ?first). fmul exact 0 ([3] ! i) = 0"
    by (simp_all add: exact_def)
  from t have z: "\<forall>i. Coeff fourModel i = 0" by (rule conjunct1)
  have p: "Predict exact fourModel [3] = Some (0, None)"
    by (rule t[THEN conjunct2, THEN conjunct2, THEN mp, OF laws(1), THEN mp, OF laws(2)])
  show ?thesis
    by (intro conjI) (rule i, rule e, rule c, rule z[rule_format], rule z[rule_format], rule p)
qed

text \<open>
  The claim C10 as stated fails on \<open>fourModel\<close>, initialised and never run, at the empty
  input vector: \<^verbatim>\<open>Predict\<close> panics.
\<close>

theorem C10_short_vector_counterexample:
  "Initialised fourModel \<and> \<not> HasRun fourModel \<and> Mapping.is_empty (CoeffMap fourModel)
   \<and> Predict exact fourModel [] = None"
  by (simp add: model_defs exact_defs loop_simps)

subsection \<open>The matrices of Run\<close>

lemma length_designRow: "k \<le> length (Variables d) \<Longrightarrow> length (designRow N k d) = k + 1"
  by (simp add: designRow_def)

lemma fillRow_None:
  "length (Variables (Data r ! i)) < k \<Longrightarrow> j \<le> k \<Longrightarrow> fillRow N r i k j M = None"
proof (induction N r i k j M rule: fillRow.induct)
  case (1 N r i k j M)
  have lt: "j < k + 1" using "1.prems" by simp
  show ?case
  proof (cases "j = 0")
    case True
    with "1.prems" have "j + 1 \<le> k" by simp
    from "1.IH"(1)[OF lt True "1.prems"(1) this] lt True show ?thesis
      by (subst fillRow.simps) simp
  next
    case False
    show ?thesis
    proof (cases "j - 1 < length (Variables (Data r ! i))")
      case True
      with "1.prems" False have "j + 1 \<le> k" by simp
      from "1.IH"(2)[OF lt False True "1.prems"(1) this] lt False True show ?thesis
        by (subst fillRow.simps) simp
    next
      case nr: False
      with lt False show ?thesis by (subst fillRow.simps) simp
    qed
  qed
qed

lemma fillRow_Some:
  "k \<le> length (Variables (Data r ! i)) \<Longrightarrow> i < length M \<Longrightarrow> length (M ! i) = k + 1 \<Longrightarrow>
   j \<le> k + 1 \<Longrightarrow>
   fillRow N r i k j M = Some (M[i := take j (M ! i) @ drop j (designRow N k (Data r ! i))])"
proof (induction N r i k j M rule: fillRow.induct)
  case (1 N r i k j M)
  let ?row = "designRow N k (Data r ! i)"
  have lr: "length ?row = k + 1" using "1.prems"(1) by (rule length_designRow)
  show ?case
  proof (cases "j < k + 1")
    case lt: True
    define v where "v = ?row ! j"
    have dr: "drop j ?row = v # drop (Suc j) ?row"
      using lt lr by (simp add: v_def Cons_nth_drop_Suc)
    have tk: "take (Suc j) ((M ! i)[j := v]) = take j (M ! i) @ [v]"
      using lt "1.prems"(3) by (simp add: take_Suc_conv_app_nth)
    define M' where "M' = Set_elem M i j v"
    have M': "M' = M[i := (M ! i)[j := v]]" by (simp add: M'_def Set_elem_def)
    have p: "i < length M'" "length (M' ! i) = k + 1" "j + 1 \<le> k + 1"
      using "1.prems" lt by (simp_all add: M')
    have res: "M'[i := take (j + 1) (M' ! i) @ drop (j + 1) ?row]
               = M[i := take j (M ! i) @ drop j ?row]"
      using "1.prems"(2) by (simp add: M' tk dr)
    show ?thesis
    proof (cases "j = 0")
      case True
      then have v1: "v = float64 N 1" by (simp add: v_def designRow_def)
      have M0: "Set_elem M i 0 (float64 N 1) = M'" using True v1 by (simp add: M'_def)
      from "1.IH"(1)[OF lt True "1.prems"(1), unfolded M0, OF p] res lt True
      show ?thesis
        by (subst fillRow.simps) (simp add: M0)
    next
      case False
      with lt "1.prems"(1) have ir: "j - 1 < length (Variables (Data r ! i))" by simp
      have v2: "v = Variables (Data r ! i) ! (j - 1)"
        using False lt by (simp add: v_def designRow_def nth_Cons')
      have M2: "Set_elem M i j (Variables (Data r ! i) ! (j - 1)) = M'"
        using v2 by (simp add: M'_def)
      from "1.IH"(2)[OF lt False ir "1.prems"(1), unfolded M2, OF p] res lt False ir
      show ?thesis
        by (subst fillRow.simps) (simp add: M2[unfolded One_nat_def])
    qed
  next
    case False
    with "1.prems"(4) have j: "j = k + 1" by simp
    with "1.prems"(2,3) lr show ?thesis
      by (subst fillRow.simps) simp
  qed
qed


lemma Set_elem_column:
  "i < length O' \<Longrightarrow> length (O' ! i) = 1 \<Longrightarrow> Set_elem O' i 0 v = O'[i := [v]]"
  by (cases "O' ! i") (simp_all add: Set_elem_def)

lemma fillMatrices_Some:
  "fillMatrices N r obs k i Ob M = Some (Ob', M') \<Longrightarrow> obs = length (Data r) \<Longrightarrow>
   length Ob = obs \<Longrightarrow> length M = obs \<Longrightarrow> i \<le> obs \<Longrightarrow>
   (\<forall>row\<in>set Ob. length row = 1) \<Longrightarrow> (\<forall>row\<in>set M. length row = k + 1) \<Longrightarrow>
   (\<forall>d\<in>set (drop i (Data r)). k \<le> length (Variables d))
   \<and> Ob' = take i Ob @ map (\<lambda>d. [Observed d]) (drop i (Data r))
   \<and> M' = take i M @ map (designRow N k) (drop i (Data r))"
proof (induction N r obs k i Ob M rule: fillMatrices.induct)
  case (1 N r obs k i Ob M)
  show ?case
  proof (cases "i < obs")
    case lt: True
    let ?d = "Data r ! i"
    from "1.prems"(1) lt obtain M1 where f: "fillRow N r i k 0 M = Some M1"
      and rec: "fillMatrices N r obs k (i + 1) (Set_elem Ob i 0 (Observed ?d)) M1 = Some (Ob', M')"
      by (subst (asm) fillMatrices.simps) (auto split: option.splits)
    have enough: "k \<le> length (Variables ?d)"
    proof (rule ccontr)
      assume "\<not> k \<le> length (Variables ?d)"
      then have "fillRow N r i k 0 M = None" by (intro fillRow_None) simp_all
      with f show False by simp
    qed
    have iM: "i < length M" using lt "1.prems"(4) by simp
    then have rowM: "length (M ! i) = k + 1" using "1.prems"(7) by simp
    from fillRow_Some[OF enough iM rowM, of 0 N] f
    have M1: "M1 = M[i := designRow N k ?d]" by simp
    have iO: "i < length Ob" using lt "1.prems"(3) by simp
    then have "length (Ob ! i) = 1" using "1.prems"(6) by simp
    with iO have O1: "Set_elem Ob i 0 (Observed ?d) = Ob[i := [Observed ?d]]"
      by (rule Set_elem_column)
    have rowsO: "\<forall>row\<in>set (Ob[i := [Observed ?d]]). length row = 1"
      using "1.prems"(6) by (auto dest!: set_update_subset_insert[THEN subsetD])
    have rowsM: "\<forall>row\<in>set M1. length row = k + 1"
      using "1.prems"(7) enough
      by (auto simp: M1 length_designRow dest!: set_update_subset_insert[THEN subsetD])
    from "1.IH"[OF lt f rec[unfolded O1, folded O1] "1.prems"(2)] O1 M1 rowsO rowsM "1.prems"(3,4) lt
    have ih: "(\<forall>d\<in>set (drop (i + 1) (Data r)). k \<le> length (Variables d))
       \<and> Ob' = take (i + 1) (Ob[i := [Observed ?d]]) @ map (\<lambda>d. [Observed d]) (drop (i + 1) (Data r))
       \<and> M' = take (i + 1) (M[i := designRow N k ?d]) @ map (designRow N k) (drop (i + 1) (Data r))"
      by simp
    have dd: "drop i (Data r) = ?d # drop (i + 1) (Data r)"
      using lt "1.prems"(2) by (simp add: Cons_nth_drop_Suc)
    have t1: "take (i + 1) (Ob[i := [Observed ?d]]) = take i Ob @ [[Observed ?d]]"
      using iO by (simp add: take_Suc_conv_app_nth)
    have t2: "take (i + 1) (M[i := designRow N k ?d]) = take i M @ [designRow N k ?d]"
      using iM by (simp add: take_Suc_conv_app_nth)
    from ih enough show ?thesis
      unfolding dd t1 t2 by simp
  next
    case False
    with "1.prems"(5) have "i = obs" by simp
    with "1.prems"(1,2,3,4) show ?thesis
      by (subst (asm) fillMatrices.simps) simp
  qed
qed

lemma fillMatrices_total:
  "obs = length (Data r) \<Longrightarrow> length Ob = obs \<Longrightarrow> length M = obs \<Longrightarrow> i \<le> obs \<Longrightarrow>
   (\<forall>row\<in>set Ob. length row = 1) \<Longrightarrow> (\<forall>row\<in>set M. length row = k + 1) \<Longrightarrow>
   (\<forall>d\<in>set (drop i (Data r)). k \<le> length (Variables d)) \<Longrightarrow>
   fillMatrices N r obs k i Ob M \<noteq> None"
proof (induction N r obs k i Ob M rule: fillMatrices.induct)
  case (1 N r obs k i Ob M)
  show ?case
  proof (cases "i < obs")
    case lt: True
    let ?d = "Data r ! i"
    have dd: "drop i (Data r) = ?d # drop (i + 1) (Data r)"
      using lt "1.prems"(1) by (simp add: Cons_nth_drop_Suc)
    with "1.prems"(7) have enough: "k \<le> length (Variables ?d)"
      and rest: "\<forall>d\<in>set (drop (i + 1) (Data r)). k \<le> length (Variables d)" by simp_all
    have iM: "i < length M" using lt "1.prems"(3) by simp
    then have rowM: "length (M ! i) = k + 1" using "1.prems"(6) by simp
    from fillRow_Some[OF enough iM rowM, of 0 N]
    have f: "fillRow N r i k 0 M = Some (M[i := designRow N k ?d])" by simp
    have iO: "i < length Ob" using lt "1.prems"(2) by simp
    then have "length (Ob ! i) = 1" using "1.prems"(5) by simp
    with iO have O1: "Set_elem Ob i 0 (Observed ?d) = Ob[i := [Observed ?d]]"
      by (rule Set_elem_column)
    have rowsO: "\<forall>row\<in>set (Set_elem Ob i 0 (Observed ?d)). length row = 1"
      using "1.prems"(5) unfolding O1 by (auto dest!: set_update_subset_insert[THEN subsetD])
    have rowsM: "\<forall>row\<in>set (M[i := designRow N k ?d]). length row = k + 1"
      using "1.prems"(6) enough
      by (auto simp: length_designRow dest!: set_update_subset_insert[THEN subsetD])
    have l1: "length (Set_elem Ob i 0 (Observed ?d)) = obs" using "1.prems"(2) by (simp add: O1)
    have l2: "length (M[i := designRow N k ?d]) = obs" using "1.prems"(3) by simp
    have le: "i + 1 \<le> obs" using lt by simp
    from "1.IH"[OF lt f "1.prems"(1) l1 l2 le rowsO rowsM rest] lt f show ?thesis
      by (subst fillMatrices.simps) simp
  next
    case False
    then show ?thesis by (subst fillMatrices.simps) simp
  qed
qed

subsection \<open>Back-substitution and the stored coefficients\<close>

lemma subtractLoop_eq:
  "i < length c \<Longrightarrow> i < j \<Longrightarrow>
   subtractLoop N reg n i j c =
     c[i := foldl (\<lambda>acc j'. fsub N acc (fmul N (c ! j') (reg i j'))) (c ! i) [j..<n]]"
proof (induction N reg n i j c rule: subtractLoop.induct)
  case (1 N reg n i j c)
  show ?case
  proof (cases "j < n")
    case True
    define c' where "c' = c[i := fsub N (c ! i) (fmul N (c ! j) (reg i j))]"
    have l: "i < length c'" and lt: "i < j + 1" using "1.prems" by (simp_all add: c'_def)
    have same: "\<And>j'. j' \<in> set [j + 1..<n] \<Longrightarrow> c' ! j' = c ! j'"
      using "1.prems"(2) by (simp add: c'_def)
    have fc: "foldl (\<lambda>acc j'. fsub N acc (fmul N (c' ! j') (reg i j'))) (c' ! i) [j + 1..<n]
            = foldl (\<lambda>acc j'. fsub N acc (fmul N (c ! j') (reg i j'))) (c' ! i) [j + 1..<n]"
      by (rule foldl_cong) (simp_all add: same)
    have u: "[j..<n] = j # [j + 1..<n]" using True by (simp add: upt_conv_Cons)
    have ci: "c' ! i = fsub N (c ! i) (fmul N (c ! j) (reg i j))"
      using "1.prems"(1) by (simp add: c'_def)
    have "subtractLoop N reg n i j c = subtractLoop N reg n i (j + 1) c'"
      using True by (subst subtractLoop.simps) (simp add: c'_def)
    also have "\<dots> = c'[i := foldl (\<lambda>acc j'. fsub N acc (fmul N (c' ! j') (reg i j'))) (c' ! i) [j + 1..<n]]"
      by (rule "1.IH"[OF True, folded c'_def, OF l lt])
    also have "\<dots> = c'[i := foldl (\<lambda>acc j'. fsub N acc (fmul N (c ! j') (reg i j'))) (c' ! i) [j + 1..<n]]"
      by (simp only: fc)
    also have "\<dots> = c[i := foldl (\<lambda>acc j'. fsub N acc (fmul N (c ! j') (reg i j'))) (c' ! i) [j + 1..<n]]"
      by (simp add: c'_def)
    also have "\<dots> = c[i := foldl (\<lambda>acc j'. fsub N acc (fmul N (c ! j') (reg i j'))) (c ! i) [j..<n]]"
      by (simp only: u ci foldl_Cons)
    finally show ?thesis .
  next
    case False
    then show ?thesis by (subst subtractLoop.simps) simp
  qed
qed

lemma backSubstitute_spec:
  "length c = n \<Longrightarrow> k \<le> n \<Longrightarrow>
   length (backSubstitute N reg qty n k c) = n
   \<and> (\<forall>m. k \<le> m \<longrightarrow> m < n \<longrightarrow> backSubstitute N reg qty n k c ! m = c ! m)
   \<and> (\<forall>i<k. backSubstitute N reg qty n k c ! i =
         fdiv N (foldl (\<lambda>acc j. fsub N acc (fmul N (backSubstitute N reg qty n k c ! j) (reg i j)))
                   (qty i 0) [i + 1..<n])
                (reg i i))"
proof (induction k arbitrary: c)
  case 0
  then show ?case by simp
next
  case (Suc i)
  define c1 where "c1 = c[i := qty i 0]"
  define c2 where "c2 = subtractLoop N reg n i (i + 1) c1"
  define c3 where "c3 = c2[i := fdiv N (c2 ! i) (reg i i)]"
  let ?res = "backSubstitute N reg qty n i c3"
  have step: "backSubstitute N reg qty n (Suc i) c = ?res"
    by (simp add: c1_def c2_def c3_def Let_def)
  have i: "i < n" using Suc.prems by simp
  have l1: "i < length c1" using i Suc.prems by (simp add: c1_def)
  have c2: "c2 = c1[i := foldl (\<lambda>acc j'. fsub N acc (fmul N (c1 ! j') (reg i j'))) (c1 ! i) [i + 1..<n]]"
    unfolding c2_def by (rule subtractLoop_eq[OF l1]) simp
  have c1c: "\<And>j. j \<in> set [i + 1..<n] \<Longrightarrow> c1 ! j = c ! j" by (simp add: c1_def)
  have f1: "foldl (\<lambda>acc j'. fsub N acc (fmul N (c1 ! j') (reg i j'))) (c1 ! i) [i + 1..<n]
          = foldl (\<lambda>acc j'. fsub N acc (fmul N (c ! j') (reg i j'))) (qty i 0) [i + 1..<n]"
  proof -
    have "c1 ! i = qty i 0" using i Suc.prems by (simp add: c1_def)
    moreover have "foldl (\<lambda>acc j'. fsub N acc (fmul N (c1 ! j') (reg i j'))) (qty i 0) [i + 1..<n]
          = foldl (\<lambda>acc j'. fsub N acc (fmul N (c ! j') (reg i j'))) (qty i 0) [i + 1..<n]"
      by (rule foldl_cong) (simp_all add: c1c)
    ultimately show ?thesis by simp
  qed
  define v where "v = fdiv N (foldl (\<lambda>acc j'. fsub N acc (fmul N (c ! j') (reg i j'))) (qty i 0) [i + 1..<n]) (reg i i)"
  have c2': "c2 = c1[i := foldl (\<lambda>acc j'. fsub N acc (fmul N (c ! j') (reg i j'))) (qty i 0) [i + 1..<n]]"
    by (simp only: c2 f1)
  have c2i: "c2 ! i = foldl (\<lambda>acc j'. fsub N acc (fmul N (c ! j') (reg i j'))) (qty i 0) [i + 1..<n]"
    using l1 by (simp only: c2' nth_list_update_eq)
  have "c3 = c2[i := v]" by (simp only: c3_def c2i v_def)
  also have "\<dots> = c1[i := v]" by (simp only: c2' list_update_overwrite)
  also have "\<dots> = c[i := v]" by (simp only: c1_def list_update_overwrite)
  finally have c3: "c3 = c[i := v]" .
  have l3: "length c3 = n" using Suc.prems by (simp add: c3)
  have le: "i \<le> n" using i by simp
  note ih = Suc.IH[OF l3 le]
  from ih have len: "length ?res = n" by (rule conjunct1)
  from ih have keep: "\<forall>m. i \<le> m \<longrightarrow> m < n \<longrightarrow> ?res ! m = c3 ! m"
    by (elim conjE)
  from ih have below: "\<forall>i'<i. ?res ! i' =
         fdiv N (foldl (\<lambda>acc j. fsub N acc (fmul N (?res ! j) (reg i' j))) (qty i' 0) [i' + 1..<n])
                (reg i' i')"
    by (elim conjE)
  have keep': "\<forall>m. Suc i \<le> m \<longrightarrow> m < n \<longrightarrow> ?res ! m = c ! m"
    using keep by (simp add: c3)
  have at_i: "?res ! i = v" using keep i Suc.prems by (simp add: c3)
  have fres: "foldl (\<lambda>acc j. fsub N acc (fmul N (?res ! j) (reg i j))) (qty i 0) [i + 1..<n]
            = foldl (\<lambda>acc j'. fsub N acc (fmul N (c ! j') (reg i j'))) (qty i 0) [i + 1..<n]"
    by (rule foldl_cong) (simp_all add: keep')
  have at_i': "?res ! i = fdiv N (foldl (\<lambda>acc j. fsub N acc (fmul N (?res ! j) (reg i j)))
                   (qty i 0) [i + 1..<n]) (reg i i)"
    unfolding fres at_i v_def ..
  have all: "\<forall>i'<Suc i. ?res ! i' =
         fdiv N (foldl (\<lambda>acc j. fsub N acc (fmul N (?res ! j) (reg i' j))) (qty i' 0) [i' + 1..<n])
                (reg i' i')"
    using below at_i' by (auto simp: less_Suc_eq)
  show ?case
    unfolding step by (intro conjI) (rule len, rule keep', rule all)
qed

lemma storeCoeffs_lookup:
  "Mapping.lookup (CoeffMap (storeCoeffs N lg i c r)) (int m) =
     (if i \<le> m \<and> m < i + length c then Some (c ! (m - i)) else Mapping.lookup (CoeffMap r) (int m))"
proof (induction c arbitrary: i r)
  case Nil
  then show ?case by auto
next
  case (Cons val rest)
  define r' where "r' = (let r1 = r\<lparr>CoeffMap := Mapping.update (int i) val (CoeffMap r)\<rparr>
        in if lg then
             (if i = 0 then r1\<lparr>Formula := ''Predicted = '' @ Sprintf4f N val\<rparr>
              else r1\<lparr>Formula := Formula r1 @ '' + '' @ GetVar r1 (int i - 1) @ ''*''
                                    @ Sprintf4f N val\<rparr>)
           else r1)"
  have cm: "CoeffMap r' = Mapping.update (int i) val (CoeffMap r)"
    by (simp add: r'_def Let_def)
  have step: "storeCoeffs N lg i (val # rest) r = storeCoeffs N lg (i + 1) rest r'"
    by (simp add: r'_def)
  show ?case
    unfolding step Cons.IH cm
    by (auto simp: nth_Cons' Mapping.lookup_update' )
qed

lemma storeCoeffs_keys:
  "Mapping.keys (CoeffMap (storeCoeffs N lg i c r)) =
     Mapping.keys (CoeffMap r) \<union> int ` {i..<i + length c}"
proof (induction c arbitrary: i r)
  case Nil
  then show ?case by simp
next
  case (Cons val rest)
  define r' where "r' = (let r1 = r\<lparr>CoeffMap := Mapping.update (int i) val (CoeffMap r)\<rparr>
        in if lg then
             (if i = 0 then r1\<lparr>Formula := ''Predicted = '' @ Sprintf4f N val\<rparr>
              else r1\<lparr>Formula := Formula r1 @ '' + '' @ GetVar r1 (int i - 1) @ ''*''
                                    @ Sprintf4f N val\<rparr>)
           else r1)"
  have cm: "CoeffMap r' = Mapping.update (int i) val (CoeffMap r)"
    by (simp add: r'_def Let_def)
  have step: "storeCoeffs N lg i (val # rest) r = storeCoeffs N lg (i + 1) rest r'"
    by (simp add: r'_def)
  have "{i..<i + length (val # rest)} = insert i {i + 1..<i + 1 + length rest}"
    by auto
  then show ?case
    unfolding step Cons.IH cm by simp
qed

subsection \<open>The statistics pass\<close>

lemma calcPredictedLoop_spec:
  "calcPredictedLoop N r i = Some r' \<Longrightarrow>
   length (Data r') = length (Data r)
   \<and> (\<forall>j<length (Data r). Variables (Data r' ! j) = Variables (Data r ! j)
                           \<and> Observed (Data r' ! j) = Observed (Data r ! j))
   \<and> (\<forall>j<i. j < length (Data r) \<longrightarrow> Data r' ! j = Data r ! j)
   \<and> (\<forall>j. i \<le> j \<longrightarrow> j < length (Data r) \<longrightarrow>
         (\<exists>e. Predict N r (Variables (Data r ! j)) = Some (Predicted (Data r' ! j), e))
         \<and> Error (Data r' ! j) = fsub N (Predicted (Data r' ! j)) (Observed (Data r ! j)))"
proof (induction N r i arbitrary: r' rule: calcPredictedLoop.induct)
  case (1 N r i)
  show ?case
  proof (cases "i < length (Data r)")
    case lt: True
    with "1.prems" obtain p err where
      P: "Predict N r (Variables (Data r ! i)) = Some (p, err)"
      by (subst (asm) calcPredictedLoop.simps) (auto split: option.splits)
    define d where "d = (Data r ! i)\<lparr>Predicted := p\<rparr>"
    define d' where "d' = d\<lparr>Error := fsub N (Predicted d) (Observed d)\<rparr>"
    define ru where "ru = r\<lparr>Data := (Data r)[i := d']\<rparr>"
    from "1.prems" lt P
    have step: "calcPredictedLoop N ru (i + 1) = Some r'"
      by (subst (asm) calcPredictedLoop.simps) (simp add: d_def d'_def ru_def Let_def)
    note ih = "1.IH"[OF lt P refl d_def d'_def, folded ru_def, OF step]
    have lu: "length (Data ru) = length (Data r)" by (simp add: ru_def)
    have d'v: "Variables d' = Variables (Data r ! i)" "Observed d' = Observed (Data r ! i)"
      "Predicted d' = p" "Error d' = fsub N p (Observed (Data r ! i))"
      by (simp_all add: d'_def d_def)
    have nth_u: "\<And>j. j < length (Data r) \<Longrightarrow>
        Variables (Data ru ! j) = Variables (Data r ! j)
        \<and> Observed (Data ru ! j) = Observed (Data r ! j)"
      using lt by (auto simp: ru_def nth_list_update d'v)
    have other: "\<And>j. j \<noteq> i \<Longrightarrow> Data ru ! j = Data r ! j" by (simp add: ru_def)
    have at_i: "Data ru ! i = d'" using lt by (simp add: ru_def)
    have pc: "\<And>vs. Predict N ru vs = Predict N r vs"
    proof (rule Predict_cong)
      show "map (\<lambda>d. length (Variables d)) (take 1 (Data ru))
            = map (\<lambda>d. length (Variables d)) (take 1 (Data r))"
      proof (cases "Data r")
        case Nil
        then show ?thesis by (simp add: ru_def)
      next
        case (Cons a as)
        then show ?thesis using lt d'v(1)
          by (cases i) (simp_all add: ru_def)
      qed
    qed (simp_all add: ru_def)
    from ih have len: "length (Data r') = length (Data r)" using lu by simp
    from ih have vo: "\<forall>j<length (Data r). Variables (Data r' ! j) = Variables (Data r ! j)
                           \<and> Observed (Data r' ! j) = Observed (Data r ! j)"
      using lu nth_u by simp
    from ih have before: "\<forall>j<i + 1. j < length (Data r) \<longrightarrow> Data r' ! j = Data ru ! j"
      using lu by simp
    from ih have after: "\<forall>j. i + 1 \<le> j \<longrightarrow> j < length (Data r) \<longrightarrow>
         (\<exists>e. Predict N r (Variables (Data r ! j)) = Some (Predicted (Data r' ! j), e))
         \<and> Error (Data r' ! j) = fsub N (Predicted (Data r' ! j)) (Observed (Data r ! j))"
      using lu pc nth_u by simp
    have b': "\<forall>j<i. j < length (Data r) \<longrightarrow> Data r' ! j = Data r ! j"
      using before other by simp
    have ri: "Data r' ! i = d'" using before lt at_i by simp
    have here: "(\<exists>e. Predict N r (Variables (Data r ! i)) = Some (Predicted (Data r' ! i), e))
         \<and> Error (Data r' ! i) = fsub N (Predicted (Data r' ! i)) (Observed (Data r ! i))"
      using P by (simp add: ri d'v)
    have a': "\<forall>j. i \<le> j \<longrightarrow> j < length (Data r) \<longrightarrow>
         (\<exists>e. Predict N r (Variables (Data r ! j)) = Some (Predicted (Data r' ! j), e))
         \<and> Error (Data r' ! j) = fsub N (Predicted (Data r' ! j)) (Observed (Data r ! j))"
    proof (intro allI impI)
      fix j assume "i \<le> j" and j: "j < length (Data r)"
      then have "j = i \<or> i + 1 \<le> j" by auto
      then show "(\<exists>e. Predict N r (Variables (Data r ! j)) = Some (Predicted (Data r' ! j), e))
         \<and> Error (Data r' ! j) = fsub N (Predicted (Data r' ! j)) (Observed (Data r ! j))"
        using here after j by auto
    qed
    show ?thesis
      by (intro conjI) (rule len, rule vo, rule b', rule a')
  next
    case False
    with "1.prems" have "r' = r"
      by (subst (asm) calcPredictedLoop.simps) simp
    with False show ?thesis by simp
  qed
qed

lemma calcPredictedLoop_total:
  "(\<forall>j. i \<le> j \<longrightarrow> j < length (Data r) \<longrightarrow> Predict N r (Variables (Data r ! j)) \<noteq> None) \<Longrightarrow>
   calcPredictedLoop N r i \<noteq> None"
proof (induction N r i rule: calcPredictedLoop.induct)
  case (1 N r i)
  show ?case
  proof (cases "i < length (Data r)")
    case lt: True
    with "1.prems" obtain p err where
      P: "Predict N r (Variables (Data r ! i)) = Some (p, err)"
      by (cases "Predict N r (Variables (Data r ! i))") auto
    define d where "d = (Data r ! i)\<lparr>Predicted := p\<rparr>"
    define d' where "d' = d\<lparr>Error := fsub N (Predicted d) (Observed d)\<rparr>"
    define ru where "ru = r\<lparr>Data := (Data r)[i := d']\<rparr>"
    have d'v: "Variables d' = Variables (Data r ! i)" by (simp add: d'_def d_def)
    have pc: "\<And>vs. Predict N ru vs = Predict N r vs"
    proof (rule Predict_cong)
      show "map (\<lambda>d. length (Variables d)) (take 1 (Data ru))
            = map (\<lambda>d. length (Variables d)) (take 1 (Data r))"
      proof (cases "Data r")
        case Nil
        then show ?thesis by (simp add: ru_def)
      next
        case (Cons a as)
        then show ?thesis using lt d'v
          by (cases i) (simp_all add: ru_def)
      qed
    qed (simp_all add: ru_def)
    have vs: "\<And>j. j < length (Data r) \<Longrightarrow> Variables (Data ru ! j) = Variables (Data r ! j)"
      using lt by (auto simp: ru_def nth_list_update d'v)
    have "\<forall>j. i + 1 \<le> j \<longrightarrow> j < length (Data ru) \<longrightarrow> Predict N ru (Variables (Data ru ! j)) \<noteq> None"
      using "1.prems" by (simp add: pc vs) (simp add: ru_def)
    from "1.IH"[OF lt P refl d_def d'_def, folded ru_def, OF this] lt P show ?thesis
      by (subst calcPredictedLoop.simps) (simp add: Let_def d_def d'_def ru_def)
  next
    case False
    then show ?thesis by (subst calcPredictedLoop.simps) simp
  qed
qed

lemma totalsLoop_eq:
  "totalsLoop N r i a b =
     (foldl (fadd N) a (map Observed (drop i (Data r))),
      foldl (fadd N) b (map Predicted (drop i (Data r))))"
proof (induction N r i a b rule: totalsLoop.induct)
  case (1 N r i a b)
  show ?case
  proof (cases "i < length (Data r)")
    case True
    then have dd: "drop i (Data r) = Data r ! i # drop (i + 1) (Data r)"
      by (simp add: Cons_nth_drop_Suc)
    have "totalsLoop N r i a b =
        totalsLoop N r (i + 1) (fadd N a (Observed (Data r ! i))) (fadd N b (Predicted (Data r ! i)))"
      using True by (subst totalsLoop.simps) simp
    also note "1.IH"[OF True]
    finally show ?thesis unfolding dd by simp
  next
    case False
    then show ?thesis by (subst totalsLoop.simps) simp
  qed
qed

lemma deviationsLoop_eq:
  "deviationsLoop N r oa pa i a b =
     (foldl (\<lambda>s x. fadd N s (Pow N (fsub N x oa) (float64 N 2))) a (map Observed (drop i (Data r))),
      foldl (\<lambda>s x. fadd N s (Pow N (fsub N x pa) (float64 N 2))) b (map Predicted (drop i (Data r))))"
proof (induction N r oa pa i a b rule: deviationsLoop.induct)
  case (1 N r oa pa i a b)
  show ?case
  proof (cases "i < length (Data r)")
    case True
    then have dd: "drop i (Data r) = Data r ! i # drop (i + 1) (Data r)"
      by (simp add: Cons_nth_drop_Suc)
    have "deviationsLoop N r oa pa i a b =
        deviationsLoop N r oa pa (i + 1)
          (fadd N a (Pow N (fsub N (Observed (Data r ! i)) oa) (float64 N 2)))
          (fadd N b (Pow N (fsub N (Predicted (Data r ! i)) pa) (float64 N 2)))"
      using True by (subst deviationsLoop.simps) simp
    also note "1.IH"[OF True]
    finally show ?thesis unfolding dd by simp
  next
    case False
    then show ?thesis by (subst deviationsLoop.simps) simp
  qed
qed

lemma calcVariance_eq:
  "Varianceobserved (calcVariance N r) = populationVariance N (map Observed (Data r))
   \<and> VariancePredicted (calcVariance N r) = populationVariance N (map Predicted (Data r))"
  by (simp add: calcVariance_def Let_def totalsLoop_eq deviationsLoop_eq populationVariance_def
      meanOf_def)

subsection \<open>A successful Run, step by step\<close>

lemma Zeros_rows: "length (Zeros m n) = m" "\<forall>row\<in>set (Zeros m n). length row = n"
  by (simp_all add: Zeros_def)

lemma Run_fitted:
  assumes "Run N lg r = Some (None, r')"
  obtains r1 k q reg qty c r3 r4 where
    "Initialised r" "\<not> HasRun r" "applyCrosses r = Some r1"
    "k = length (Variables (Data r1 ! 0))" "k + 1 \<le> length (Data r1)"
    "\<forall>d\<in>set (Data r1). k \<le> length (Variables d)"
    "QR N (map (designRow N k) (Data r1)) = (q, reg)"
    "TransposeTimes N q (map (\<lambda>d. [Observed d]) (Data r1)) = Inr qty"
    "c = backSubstitute N reg qty (k + 1) (k + 1) (replicate (k + 1) 0)"
    "r3 = storeCoeffs N lg 0 c (r1\<lparr>HasRun := True, CoeffMap := Mapping.empty\<rparr>)"
    "calcPredicted N r3 = Some r4"
    "r' = (calcR2 N (calcVariance N r4))\<lparr>HasRun := True\<rparr>"
  using assms
proof (cases rule: Run_cases)
  case (fitted r1 observed variables q reg qty r4)
  define k where "k = length (Variables (Data r1 ! 0))"
  let ?r2 = "r1\<lparr>HasRun := True\<rparr>"
  have fm: "fillMatrices N ?r2 (length (Data r1)) k 0 (Zeros (length (Data r1)) 1)
              (Zeros (length (Data r1)) (k + 1)) = Some (observed, variables)"
    using fitted(5) by (simp add: k_def)
  from fillMatrices_Some[OF fm _ Zeros_rows(1) Zeros_rows(1) _ Zeros_rows(2) Zeros_rows(2)]
  have en: "\<forall>d\<in>set (Data r1). k \<le> length (Variables d)"
    and ob: "observed = map (\<lambda>d. [Observed d]) (Data r1)"
    and va: "variables = map (designRow N k) (Data r1)"
    by simp_all
  show ?thesis
  proof (rule that[of r1 k q reg qty _ _ r4])
    show "Initialised r" "\<not> HasRun r" "applyCrosses r = Some r1" by (rule fitted)+
    show "k = length (Variables (Data r1 ! 0))" by (rule k_def)
    show "k + 1 \<le> length (Data r1)" using fitted(4) by (simp add: k_def)
    show "\<forall>d\<in>set (Data r1). k \<le> length (Variables d)" by (rule en)
    show "QR N (map (designRow N k) (Data r1)) = (q, reg)" using fitted(6) va by simp
    show "TransposeTimes N q (map (\<lambda>d. [Observed d]) (Data r1)) = Inr qty"
      using fitted(7) ob by simp
    show "backSubstitute N reg qty (k + 1) (k + 1) (replicate (k + 1) 0)
          = backSubstitute N reg qty (k + 1) (k + 1) (replicate (k + 1) 0)" ..
    show "storeCoeffs N lg 0 (backSubstitute N reg qty (k + 1) (k + 1) (replicate (k + 1) 0))
            (r1\<lparr>HasRun := True, CoeffMap := Mapping.empty\<rparr>)
          = storeCoeffs N lg 0 (backSubstitute N reg qty (k + 1) (k + 1) (replicate (k + 1) 0))
            (r1\<lparr>HasRun := True, CoeffMap := Mapping.empty\<rparr>)" ..
    show "calcPredicted N (storeCoeffs N lg 0
            (backSubstitute N reg qty (k + 1) (k + 1) (replicate (k + 1) 0))
            (r1\<lparr>HasRun := True, CoeffMap := Mapping.empty\<rparr>)) = Some r4"
      using fitted(8) by (simp add: k_def)
    show "r' = (calcR2 N (calcVariance N r4))\<lparr>HasRun := True\<rparr>" by (rule fitted)
  qed
qed simp_all

lemma map_points_cong:
  assumes "length xs = length ys" and "\<And>j. j < length xs \<Longrightarrow> f (xs ! j) = f (ys ! j)"
  shows "map f xs = map f ys"
  using assms by (intro nth_equalityI) simp_all

lemma first_arity_cong:
  assumes "length xs = length ys"
    and "\<And>j. j < length xs \<Longrightarrow> Variables (xs ! j) = Variables (ys ! j)"
  shows "map (\<lambda>d. length (Variables d)) (take 1 xs) = map (\<lambda>d. length (Variables d)) (take 1 ys)"
proof (cases xs)
  case Nil
  with assms(1) show ?thesis by simp
next
  case (Cons x xs')
  with assms(1) obtain y ys' where y: "ys = y # ys'" by (cases ys) simp_all
  from assms(2)[of 0] Cons y have "Variables x = Variables y" by simp
  with Cons y show ?thesis by simp
qed

lemma Run_fitted_final:
  assumes "Run N lg r = Some (None, r')"
  obtains k q reg qty c where
    "k = length (Variables (Data r' ! 0))" "k + 1 \<le> length (Data r')"
    "\<forall>d\<in>set (Data r'). k \<le> length (Variables d)"
    "QR N (map (designRow N k) (Data r')) = (q, reg)"
    "TransposeTimes N q (map (\<lambda>d. [Observed d]) (Data r')) = Inr qty"
    "c = backSubstitute N reg qty (k + 1) (k + 1) (replicate (k + 1) 0)"
    "\<forall>i<k + 1. Mapping.lookup (CoeffMap r') (int i) = Some (c ! i)"
    "Mapping.keys (CoeffMap r') = int ` {0..<k + 1}"
    "Initialised r'" "HasRun r'"
    "\<forall>j<length (Data r').
        Predict N r' (Variables (Data r' ! j)) = Some (Predicted (Data r' ! j), None)
        \<and> Error (Data r' ! j) = fsub N (Predicted (Data r' ! j)) (Observed (Data r' ! j))"
    "Varianceobserved r' = populationVariance N (map Observed (Data r'))"
    "VariancePredicted r' = populationVariance N (map Predicted (Data r'))"
    "R2 r' = fdiv N (VariancePredicted r') (Varianceobserved r')"
    "length (Data r') = length (Data r)"
    "\<forall>j<length (Data r).
        crossVars (Crosses r) (Variables (Data r ! j)) = Some (Variables (Data r' ! j))
        \<and> Observed (Data r' ! j) = Observed (Data r ! j)"
  using assms
proof (cases rule: Run_fitted)
  case (1 r1 k q reg qty c r3 r4)
  note a = applyCrosses_Some[OF 1(3)]
  let ?r2 = "r1\<lparr>HasRun := True, CoeffMap := Mapping.empty\<rparr>"
  have r3: "Data r3 = Data r1" "Initialised r3" "Crosses r3 = Crosses r1"
    using 1(1) a(4) by (simp_all add: 1(10) storeCoeffs_fields)
  have cp: "calcPredictedLoop N r3 0 = Some r4" using 1(11) by (simp add: calcPredicted_def)
  note f4 = calcPredictedLoop_fields[OF cp]
  note s4 = calcPredictedLoop_spec[OF cp]
  have d': "Data r' = Data r4" "CoeffMap r' = CoeffMap r3" "Initialised r'" "HasRun r'"
    "Crosses r' = Crosses r3"
    using f4 r3(2) by (simp_all add: 1(12) calcR2_fields calcVariance_fields)
  have len: "length (Data r') = length (Data r1)" using s4 d'(1) r3(1) by simp
  have vo: "\<And>j. j < length (Data r') \<Longrightarrow>
      Variables (Data r' ! j) = Variables (Data r1 ! j) \<and> Observed (Data r' ! j) = Observed (Data r1 ! j)"
    using s4 d'(1) r3(1) len by simp
  have pos: "0 < length (Data r')" using 1(5) len by (cases "Data r1") simp_all
  have k: "k = length (Variables (Data r' ! 0))" using vo[OF pos] 1(4) by simp
  have kl: "k + 1 \<le> length (Data r')" using 1(5) len by simp
  have en: "\<forall>d\<in>set (Data r'). k \<le> length (Variables d)"
  proof
    fix d assume "d \<in> set (Data r')"
    then obtain j where j: "j < length (Data r')" and d: "d = Data r' ! j"
      by (auto simp: in_set_conv_nth)
    from j len have "Data r1 ! j \<in> set (Data r1)" by simp
    with 1(6) have "k \<le> length (Variables (Data r1 ! j))" by simp
    with vo[OF j] d show "k \<le> length (Variables d)" by simp
  qed
  have m1: "map (designRow N k) (Data r') = map (designRow N k) (Data r1)"
    using len vo by (intro map_points_cong) (simp_all add: designRow_def)
  have m2: "map (\<lambda>d. [Observed d]) (Data r') = map (\<lambda>d. [Observed d]) (Data r1)"
    using len vo by (intro map_points_cong) simp_all
  have lk: "\<forall>i<k + 1. Mapping.lookup (CoeffMap r') (int i) = Some (c ! i)"
  proof -
    have lc: "length c = k + 1"
      unfolding 1(9) using backSubstitute_spec[of "replicate (k + 1) 0" "k + 1" "k + 1" N reg qty]
      by simp
    show ?thesis
      by (simp add: d'(2) 1(10) storeCoeffs_lookup lc)
  qed
  have ks: "Mapping.keys (CoeffMap r') = int ` {0..<k + 1}"
  proof -
    have lc: "length c = k + 1"
      unfolding 1(9) using backSubstitute_spec[of "replicate (k + 1) 0" "k + 1" "k + 1" N reg qty]
      by simp
    show ?thesis
      by (simp add: d'(2) 1(10) storeCoeffs_keys lc)
  qed
  have pc: "\<And>vs. Predict N r' vs = Predict N r3 vs"
  proof (rule Predict_cong)
    show "Initialised r' = Initialised r3" using d'(3) r3(2) by simp
    show "Crosses r' = Crosses r3" by (rule d'(5))
    show "CoeffMap r' = CoeffMap r3" by (rule d'(2))
    show "map (\<lambda>d. length (Variables d)) (take 1 (Data r'))
          = map (\<lambda>d. length (Variables d)) (take 1 (Data r3))"
      using len vo r3(1) by (intro first_arity_cong) simp_all
  qed
  have pr: "\<forall>j<length (Data r').
        Predict N r' (Variables (Data r' ! j)) = Some (Predicted (Data r' ! j), None)
        \<and> Error (Data r' ! j) = fsub N (Predicted (Data r' ! j)) (Observed (Data r' ! j))"
  proof (intro allI impI)
    fix j assume j: "j < length (Data r')"
    then have j3: "j < length (Data r3)" using len r3(1) by simp
    from s4 j3 obtain e where
      p: "Predict N r3 (Variables (Data r3 ! j)) = Some (Predicted (Data r4 ! j), e)"
      and er: "Error (Data r4 ! j) = fsub N (Predicted (Data r4 ! j)) (Observed (Data r3 ! j))"
      by auto
    have "e = None"
    proof (cases e)
      case (Some x)
      with p have "\<exists>v e. Predict N r3 (Variables (Data r3 ! j)) = Some (v, Some e)" by blast
      with r3(2) show ?thesis by (simp add: Predict_error_iff)
    qed simp
    with p er vo[OF j] show "Predict N r' (Variables (Data r' ! j)) = Some (Predicted (Data r' ! j), None)
        \<and> Error (Data r' ! j) = fsub N (Predicted (Data r' ! j)) (Observed (Data r' ! j))"
      by (simp add: pc d'(1) r3(1))
  qed
  have v1: "Varianceobserved r' = populationVariance N (map Observed (Data r'))"
    and v2: "VariancePredicted r' = populationVariance N (map Predicted (Data r'))"
    using calcVariance_eq[of N r4] by (simp_all add: 1(12) calcR2_def calcVariance_fields)
  have r2: "R2 r' = fdiv N (VariancePredicted r') (Varianceobserved r')"
    by (simp add: 1(12) calcR2_def)
  have q1: "QR N (map (designRow N k) (Data r')) = (q, reg)"
    unfolding m1 by (rule 1(7))
  have q2: "TransposeTimes N q (map (\<lambda>d. [Observed d]) (Data r')) = Inr qty"
    unfolding m2 by (rule 1(8))
  note ap = applyCrosses_points[OF 1(3)]
  have l0: "length (Data r') = length (Data r)" using len ap by simp
  have cr: "\<forall>j<length (Data r).
        crossVars (Crosses r) (Variables (Data r ! j)) = Some (Variables (Data r' ! j))
        \<and> Observed (Data r' ! j) = Observed (Data r ! j)"
    using ap vo l0 by simp
  show ?thesis
    by (rule that[OF k kl en q1 q2 1(9) lk ks d'(3) d'(4) pr v1 v2 r2 l0 cr])
qed

lemma Coeff_lookup:
  "Mapping.lookup (CoeffMap r) i = Some v \<Longrightarrow> Coeff r i = v"
proof -
  assume a: "Mapping.lookup (CoeffMap r) i = Some v"
  then have "i \<in> Mapping.keys (CoeffMap r)"
    by (simp add: Mapping.keys_is_none_rep Option.is_none_def)
  then have "\<not> Mapping.is_empty (CoeffMap r)"
    by (auto simp: Mapping.is_empty_def)
  with a show ?thesis by (simp add: Coeff_def)
qed

text \<open>
  Claim C4. After a successful \<^verbatim>\<open>Run\<close>, let \<open>n\<close> be the number of variables of the first
  stored point plus one. The design matrix has one row per data point: the constant \<open>1\<close>,
  then the point's first \<open>n - 1\<close> variables (every point has at least that many; all of
  its crossed variables when the points agree on their number). With \<open>(q, reg)\<close> its QR
  factors and \<open>qty\<close> the product of the transpose of \<open>q\<close> with the column of observed
  values, the stored coefficients are the vector \<open>c\<close> that the downward loop
  \<open>backSubstitute\<close> computes from index \<open>n - 1\<close> to \<open>0\<close>, and they satisfy, for every
  \<open>i < n\<close>: \<open>c[i] = (qty[i] - c[i+1] * reg[i,i+1] - ... - c[n-1] * reg[i,n-1]) / reg[i,i]\<close>,
  the products subtracted one after the other in increasing \<open>j\<close>.
\<close>

theorem C4_back_substitution:
  assumes "Run N lg r = Some (None, r')" and "n = length (Variables (Data r' ! 0)) + 1"
  shows "\<exists>q reg qty c.
      QR N (map (designRow N (n - 1)) (Data r')) = (q, reg)
    \<and> TransposeTimes N q (map (\<lambda>d. [Observed d]) (Data r')) = Inr qty
    \<and> (\<forall>d\<in>set (Data r'). n - 1 \<le> length (Variables d))
    \<and> c = backSubstitute N reg qty n n (replicate n 0)
    \<and> length c = n
    \<and> (\<forall>i<n. Mapping.lookup (CoeffMap r') (int i) = Some (c ! i) \<and> Coeff r' (int i) = c ! i)
    \<and> (\<forall>i<n. c ! i =
          fdiv N (foldl (\<lambda>acc j. fsub N acc (fmul N (c ! j) (reg i j))) (qty i 0) [i + 1..<n])
                 (reg i i))"
  using assms(1)
proof (cases rule: Run_fitted_final)
  case (1 k q reg qty c)
  have n: "n = k + 1" "n - 1 = k" using assms(2) 1(1) by simp_all
  note bs = backSubstitute_spec[of "replicate n 0" n n N reg qty, simplified, folded 1(6)[folded n(1)]]
  have lc: "length c = n" using bs by (rule conjunct1)
  have rec: "\<forall>i<n. c ! i =
          fdiv N (foldl (\<lambda>acc j. fsub N acc (fmul N (c ! j) (reg i j))) (qty i 0) [i + 1..<n])
                 (reg i i)"
    using bs by simp
  have lk: "\<forall>i<n. Mapping.lookup (CoeffMap r') (int i) = Some (c ! i) \<and> Coeff r' (int i) = c ! i"
    using 1(7) by (simp add: n(1) Coeff_lookup)
  have g1: "QR N (map (designRow N (n - 1)) (Data r')) = (q, reg)"
    using 1(4) by (simp add: n(1))
  have g2: "TransposeTimes N q (map (\<lambda>d. [Observed d]) (Data r')) = Inr qty"
    by (rule 1(5))
  have g3: "\<forall>d\<in>set (Data r'). n - 1 \<le> length (Variables d)"
    using 1(3) by (simp add: n(1))
  have g4: "c = backSubstitute N reg qty n n (replicate n 0)"
    using 1(6) by (simp add: n(1))
  show ?thesis
    apply (rule exI[of _ q], rule exI[of _ reg], rule exI[of _ qty], rule exI[of _ c])
    apply (intro conjI)
    apply (rule g1, rule g2, rule g3, rule g4, rule lc, rule lk, rule rec)
    done
qed

theorem C4_witness:
  "Run exact False fourModel = Some (None, fittedModel)
   \<and> map (designRow exact 1) (Data fittedModel) = [[1, 1], [1, - 1], [1, 1], [1, - 1]]
   \<and> (\<exists>q reg qty.
         QR exact (map (designRow exact 1) (Data fittedModel)) = (q, reg)
       \<and> TransposeTimes exact q (map (\<lambda>d. [Observed d]) (Data fittedModel)) = Inr qty
       \<and> reg 0 0 = 2 \<and> reg 0 1 = 0 \<and> reg 1 1 = 2 \<and> qty 0 0 = 6 \<and> qty 1 0 = 4
       \<and> Coeff fittedModel 1 = fdiv exact (qty 1 0) (reg 1 1)
       \<and> Coeff fittedModel 0
           = fdiv exact (fsub exact (qty 0 0) (fmul exact (Coeff fittedModel 1) (reg 0 1))) (reg 0 0))
   \<and> Coeff fittedModel 0 = 3 \<and> Coeff fittedModel 1 = 2"
proof -
  have n: "(2::nat) = length (Variables (Data fittedModel ! 0)) + 1"
    by (simp add: fittedModel_def)
  have dm: "map (designRow exact 1) (Data fittedModel) = [[1, 1], [1, - 1], [1, 1], [1, - 1]]"
    by (simp add: fittedModel_def designRow_def exact_def)
  from C4_back_substitution[OF Run_fourModel n] obtain q reg qty c where
    qr: "QR exact (map (designRow exact (2 - 1)) (Data fittedModel)) = (q, reg)"
    and tt: "TransposeTimes exact q (map (\<lambda>d. [Observed d]) (Data fittedModel)) = Inr qty"
    and lk: "\<forall>i<2. Mapping.lookup (CoeffMap fittedModel) (int i) = Some (c ! i)
                \<and> Coeff fittedModel (int i) = c ! i"
    and rec: "\<forall>i<2. c ! i =
          fdiv exact (foldl (\<lambda>acc j. fsub exact acc (fmul exact (c ! j) (reg i j))) (qty i 0) [i + 1..<2])
                 (reg i i)"
    by blast
  have qr1: "QR exact (map (designRow exact 1) (Data fittedModel)) = (q, reg)"
    using qr by simp
  then have reg: "reg = (\<lambda>i j. if i = j then 2 else 0)"
    and q: "q = [[1 / 2, 1 / 2], [1 / 2, - 1 / 2], [1 / 2, 1 / 2], [1 / 2, - 1 / 2]]"
    unfolding dm by (auto simp: exact_def scaledQR_def)
  have qty: "qty 0 0 = 6" "qty 1 0 = 4"
    using tt unfolding q by (auto simp: exact_def transposeTimes_def fittedModel_def upt_conv_Cons)
  have r: "reg 0 0 = 2" "reg 0 1 = 0" "reg 1 1 = 2" by (simp_all add: reg)
  from lk have c0: "Coeff fittedModel 0 = c ! 0" and c1: "Coeff fittedModel 1 = c ! 1"
    by (auto dest: spec[of _ 0] spec[of _ 1])
  from rec[rule_format, of 1] have e1: "Coeff fittedModel 1 = fdiv exact (qty 1 0) (reg 1 1)"
    by (simp add: c1)
  have u: "[Suc 0..<2] = [1]" by (simp add: upt_conv_Cons)
  from rec[rule_format, of 0] have e0: "Coeff fittedModel 0
           = fdiv exact (fsub exact (qty 0 0) (fmul exact (Coeff fittedModel 1) (reg 0 1))) (reg 0 0)"
    by (simp add: c0 c1 u)
  have v: "Coeff fittedModel 0 = 3" "Coeff fittedModel 1 = 2"
    by (simp_all add: Coeff_def fittedModel_def)
  have ex: "\<exists>q reg qty.
         QR exact (map (designRow exact 1) (Data fittedModel)) = (q, reg)
       \<and> TransposeTimes exact q (map (\<lambda>d. [Observed d]) (Data fittedModel)) = Inr qty
       \<and> reg 0 0 = 2 \<and> reg 0 1 = 0 \<and> reg 1 1 = 2 \<and> qty 0 0 = 6 \<and> qty 1 0 = 4
       \<and> Coeff fittedModel 1 = fdiv exact (qty 1 0) (reg 1 1)
       \<and> Coeff fittedModel 0
           = fdiv exact (fsub exact (qty 0 0) (fmul exact (Coeff fittedModel 1) (reg 0 1))) (reg 0 0)"
    apply (rule exI[of _ q], rule exI[of _ reg], rule exI[of _ qty])
    apply (intro conjI)
    apply (rule qr1, rule tt, rule r(1), rule r(2), rule r(3), rule qty(1), rule qty(2), rule e1, rule e0)
    done
  show ?thesis
    by (intro conjI) (rule Run_fourModel, rule dm, rule ex, rule v(1), rule v(2))
qed

text \<open>
  Claim C7. After a successful \<^verbatim>\<open>Run\<close> every stored point holds its crossed variable
  vector, its \<open>Predicted\<close> field is what \<^verbatim>\<open>Predict\<close> returns on that crossed vector (with no
  error) and its \<open>Error\<close> field is predicted minus observed. \<open>Varianceobserved\<close> and
  \<open>VariancePredicted\<close> are the population variances (division by the number of points)
  of the observed and of the predicted values, and \<open>R2\<close> is their quotient
  \<open>VariancePredicted / Varianceobserved\<close>, whatever the divisor: with an observed
  variance of \<open>0\<close> the call still returns no error and \<open>R2\<close> is what the division of the
  runtime gives for the divisor \<open>0\<close> (for \<^verbatim>\<open>float64\<close>, a NaN or an infinity).
\<close>

theorem C7_statistics:
  assumes "Run N lg r = Some (None, r')"
  shows "length (Data r') = length (Data r)
    \<and> (\<forall>j<length (Data r).
          crossVars (Crosses r) (Variables (Data r ! j)) = Some (Variables (Data r' ! j))
          \<and> Observed (Data r' ! j) = Observed (Data r ! j)
          \<and> Predict N r' (Variables (Data r' ! j)) = Some (Predicted (Data r' ! j), None)
          \<and> Error (Data r' ! j) = fsub N (Predicted (Data r' ! j)) (Observed (Data r' ! j)))
    \<and> Varianceobserved r' = populationVariance N (map Observed (Data r'))
    \<and> VariancePredicted r' = populationVariance N (map Predicted (Data r'))
    \<and> R2 r' = fdiv N (VariancePredicted r') (Varianceobserved r')
    \<and> (Varianceobserved r' = 0 \<longrightarrow> R2 r' = fdiv N (VariancePredicted r') 0)"
  using assms
proof (cases rule: Run_fitted_final)
  case (1 k q reg qty c)
  have pts: "\<forall>j<length (Data r).
          crossVars (Crosses r) (Variables (Data r ! j)) = Some (Variables (Data r' ! j))
          \<and> Observed (Data r' ! j) = Observed (Data r ! j)
          \<and> Predict N r' (Variables (Data r' ! j)) = Some (Predicted (Data r' ! j), None)
          \<and> Error (Data r' ! j) = fsub N (Predicted (Data r' ! j)) (Observed (Data r' ! j))"
    using 1(11) 1(15) 1(16) by simp
  have z: "Varianceobserved r' = 0 \<longrightarrow> R2 r' = fdiv N (VariancePredicted r') 0"
    using 1(14) by simp
  show ?thesis
    by (intro conjI) (rule 1(15), rule pts, rule 1(12), rule 1(13), rule 1(14), rule z)
qed

theorem C7_witness:
  "Run exact False fourModel = Some (None, fittedModel)
   \<and> map Predicted (Data fittedModel) = [5, 1, 5, 1]
   \<and> map Error (Data fittedModel) = [0, 0, 0, 0]
   \<and> Predict exact fittedModel [- 1] = Some (1, None)
   \<and> populationVariance exact [5, 1, 5, 1] = 4
   \<and> Varianceobserved fittedModel = 4 \<and> VariancePredicted fittedModel = 4
   \<and> R2 fittedModel = fdiv exact 4 4
   \<and> (\<exists>r'. Run exact False flatModel = Some (None, r')
         \<and> Varianceobserved r' = 0 \<and> R2 r' = fdiv exact (VariancePredicted r') 0)"
proof -
  note t = C7_statistics[OF Run_fourModel]
  have l: "length (Data fourModel) = 4" by (simp add: model_defs exact_defs)
  have p: "map Predicted (Data fittedModel) = [5, 1, 5, 1]"
    and e: "map Error (Data fittedModel) = [0, 0, 0, 0]"
    and o: "map Observed (Data fittedModel) = [5, 1, 5, 1]"
    by (simp_all add: fittedModel_def)
  from t have "Predict exact fittedModel (Variables (Data fittedModel ! 1))
               = Some (Predicted (Data fittedModel ! 1), None)"
    using l by simp
  then have p1: "Predict exact fittedModel [- 1] = Some (1, None)"
    by (simp add: fittedModel_def)
  from t have vo: "Varianceobserved fittedModel = populationVariance exact (map Observed (Data fittedModel))"
    and vp: "VariancePredicted fittedModel = populationVariance exact (map Predicted (Data fittedModel))"
    and r2: "R2 fittedModel = fdiv exact (VariancePredicted fittedModel) (Varianceobserved fittedModel)"
    by simp_all
  have v4: "Varianceobserved fittedModel = 4" "VariancePredicted fittedModel = 4"
    by (simp_all add: fittedModel_def)
  have pv: "populationVariance exact [5, 1, 5, 1] = 4"
    using vo by (simp only: o v4)
  have r24: "R2 fittedModel = fdiv exact 4 4" using r2 by (simp only: v4)
  have "\<exists>r'. Run exact False flatModel = Some (None, r') \<and> Varianceobserved r' = 0"
    by (simp add: model_defs exact_defs loop_simps Let_def flatModel_def)
  then obtain r' where f: "Run exact False flatModel = Some (None, r')"
    and z: "Varianceobserved r' = 0"
    by (elim exE conjE)
  have "R2 r' = fdiv exact (VariancePredicted r') 0"
    using C7_statistics[OF f] z by simp
  with f z have ex: "\<exists>r'. Run exact False flatModel = Some (None, r')
         \<and> Varianceobserved r' = 0 \<and> R2 r' = fdiv exact (VariancePredicted r') 0"
    by (intro exI[of _ r'] conjI)
  show ?thesis
    by (intro conjI)
       (rule Run_fourModel, rule p, rule e, rule p1, rule pv, rule v4(1), rule v4(2), rule r24, rule ex)
qed

end
